theory Spec2Isabelle
  imports Complex_Main "HOL-Library.Multiset"
begin

text \<open>
  The order matching and settlement core of the mercadobitcoin-challenge repository: the
  order entity and its validation (\<^verbatim>\<open>entity\<close>), the repositories and their SQL
  (\<^verbatim>\<open>repository\<close>), the trade executor and the order use case with the matching loop
  and the aggregated order book (\<^verbatim>\<open>usecase\<close>). The first part of the theory is the
  model, each function under the name it has in the source; the second part states and
  proves the properties.
\<close>

section \<open>Exact decimals\<close>

text \<open>
  Prices, quantities and balances are \<^verbatim>\<open>decimal.Decimal\<close> values of the
  shopspring library, which the repository imports: an unbounded integer \<^verbatim>\<open>value\<close>
  and an exponent \<^verbatim>\<open>exp\<close>, standing for \<open>value * 10 ^ exp\<close>. The library is a
  dependency and not part of the repository, so the operations the repository calls are
  written here the way the library computes them, on the two fields. The exponent is an
  \<^verbatim>\<open>int32\<close> in the library; it is an unbounded integer here (the library panics
  when a product's exponent leaves the 32 bit range, which needs exponents beyond a
  thousand million).
\<close>

record Decimal =
  d_value :: int
  d_exp :: int

definition Decimal_of :: "int \<Rightarrow> int \<Rightarrow> Decimal" where
  "Decimal_of v e = \<lparr>d_value = v, d_exp = e\<rparr>"

text \<open>\<^verbatim>\<open>decimal.Zero = New(0, 1)\<close> and \<^verbatim>\<open>decimal.NewFromInt(v) = {v, 0}\<close>.\<close>

definition Zero :: Decimal where
  "Zero = Decimal_of 0 1"

definition NewFromInt :: "int \<Rightarrow> Decimal" where
  "NewFromInt v = Decimal_of v 0"

text \<open>
  \<^verbatim>\<open>big.Int.Quo\<close> truncates towards zero; \<^verbatim>\<open>rescale\<close> multiplies the value when
  the exponent goes down and divides (truncating) when it goes up.
\<close>

definition Quo :: "int \<Rightarrow> int \<Rightarrow> int" where
  "Quo a b = sgn a * sgn b * (\<bar>a\<bar> div \<bar>b\<bar>)"

definition rescale :: "Decimal \<Rightarrow> int \<Rightarrow> Decimal" where
  "rescale d e =
     (if d_exp d = e then d
      else if e > d_exp d then Decimal_of (Quo (d_value d) (10 ^ nat (e - d_exp d))) e
      else Decimal_of (d_value d * 10 ^ nat (d_exp d - e)) e)"

definition RescalePair :: "Decimal \<Rightarrow> Decimal \<Rightarrow> Decimal \<times> Decimal" where
  "RescalePair d1 d2 =
     (if d_exp d1 < d_exp d2 then (d1, rescale d2 (d_exp d1))
      else if d_exp d1 > d_exp d2 then (rescale d1 (d_exp d2), d2)
      else (d1, d2))"

text \<open>\<^verbatim>\<open>Cmp\<close> returns -1, 0 or 1, as \<^verbatim>\<open>big.Int.Cmp\<close> on the rescaled values.\<close>

definition int_Cmp :: "int \<Rightarrow> int \<Rightarrow> int" where
  "int_Cmp a b = (if a < b then - 1 else if a = b then 0 else 1)"

definition Cmp :: "Decimal \<Rightarrow> Decimal \<Rightarrow> int" where
  "Cmp d d2 =
     (if d_exp d = d_exp d2 then int_Cmp (d_value d) (d_value d2)
      else (case RescalePair d d2 of (rd, rd2) \<Rightarrow> int_Cmp (d_value rd) (d_value rd2)))"

definition Equal :: "Decimal \<Rightarrow> Decimal \<Rightarrow> bool" where
  "Equal d d2 = (Cmp d d2 = 0)"

definition GreaterThan :: "Decimal \<Rightarrow> Decimal \<Rightarrow> bool" where
  "GreaterThan d d2 = (Cmp d d2 = 1)"

definition GreaterThanOrEqual :: "Decimal \<Rightarrow> Decimal \<Rightarrow> bool" where
  "GreaterThanOrEqual d d2 = (let cmp = Cmp d d2 in cmp = 1 \<or> cmp = 0)"

definition LessThan :: "Decimal \<Rightarrow> Decimal \<Rightarrow> bool" where
  "LessThan d d2 = (Cmp d d2 = - 1)"

definition LessThanOrEqual :: "Decimal \<Rightarrow> Decimal \<Rightarrow> bool" where
  "LessThanOrEqual d d2 = (let cmp = Cmp d d2 in cmp = - 1 \<or> cmp = 0)"

definition IsZero :: "Decimal \<Rightarrow> bool" where
  "IsZero d = (sgn (d_value d) = 0)"

definition Add :: "Decimal \<Rightarrow> Decimal \<Rightarrow> Decimal" where
  "Add d d2 = (case RescalePair d d2 of (rd, rd2) \<Rightarrow>
     Decimal_of (d_value rd + d_value rd2) (d_exp rd))"

definition Sub :: "Decimal \<Rightarrow> Decimal \<Rightarrow> Decimal" where
  "Sub d d2 = (case RescalePair d d2 of (rd, rd2) \<Rightarrow>
     Decimal_of (d_value rd - d_value rd2) (d_exp rd))"

definition Mul :: "Decimal \<Rightarrow> Decimal \<Rightarrow> Decimal" where
  "Mul d d2 = Decimal_of (d_value d * d_value d2) (d_exp d + d_exp d2)"

text \<open>\<^verbatim>\<open>decimal.Min(first, rest...)\<close> with one further argument.\<close>

definition Min2 :: "Decimal \<Rightarrow> Decimal \<Rightarrow> Decimal" where
  "Min2 first item = (if Cmp item first < 0 then item else first)"

text \<open>The number a decimal stands for.\<close>

definition dval :: "Decimal \<Rightarrow> rat" where
  "dval d = of_int (d_value d) * 10 powi (d_exp d)"

section \<open>Strings and slices\<close>

text \<open>
  \<^verbatim>\<open>strings.Split(s, "_")\<close>: the pieces of \<open>s\<close> between the separators; the
  repository only splits on the one character \<^verbatim>\<open>_\<close>. The result is never empty:
  a string without the separator is its own single piece.
\<close>

fun Split :: "string \<Rightarrow> char \<Rightarrow> string list" where
  "Split [] sep = [[]]"
| "Split (x # xs) sep =
     (if x = sep then [] # Split xs sep
      else (case Split xs sep of [] \<Rightarrow> [[x]] | p # ps \<Rightarrow> (x # p) # ps))"

text \<open>Indexing a slice: Go panics (index out of range) where the index is not below the length.\<close>

definition at_index :: "'a list \<Rightarrow> nat \<Rightarrow> 'a option" where
  "at_index xs i = (if i < length xs then Some (xs ! i) else None)"

subsection \<open>Decimals as strings\<close>

text \<open>
  \<^verbatim>\<open>Decimal.String()\<close> prints the integer part, and after a point the fractional
  digits without trailing zeros; \<^verbatim>\<open>decimal.NewFromString\<close> reads such a string back
  (all digits as the value, minus the number of fractional digits as the exponent).
  The library also reads scientific notation (\<^verbatim>\<open>1e5\<close>); \<open>NewFromString\<close> here
  reads an optional sign, digits and at most one point, which covers every string
  \<^verbatim>\<open>String()\<close> prints, and refuses the rest.
\<close>

definition digit_chars :: string where
  "digit_chars = ''0123456789''"

definition digit_char :: "nat \<Rightarrow> char" where
  "digit_char n = digit_chars ! n"

fun position :: "'a \<Rightarrow> 'a list \<Rightarrow> nat option" where
  "position c [] = None"
| "position c (x # xs) = (if x = c then Some 0 else map_option Suc (position c xs))"

definition digit_of_char :: "char \<Rightarrow> nat option" where
  "digit_of_char c = position c digit_chars"

text \<open>\<^verbatim>\<open>big.Int.String()\<close> of a natural number, and of an integer.\<close>

fun digits_of :: "nat \<Rightarrow> string" where
  "digits_of n = (if n < 10 then [digit_char n] else digits_of (n div 10) @ [digit_char (n mod 10)])"

declare digits_of.simps [simp del]

definition int_String :: "int \<Rightarrow> string" where
  "int_String i = (if i < 0 then CHR ''-'' # digits_of (nat (- i)) else digits_of (nat i))"

definition trim_zeros :: "string \<Rightarrow> string" where
  "trim_zeros fractionalPart = rev (dropWhile (\<lambda>c. c = CHR ''0'') (rev fractionalPart))"

definition String :: "Decimal \<Rightarrow> string" where
  "String d =
     (if d_exp d \<ge> 0 then int_String (d_value (rescale d 0))
      else
        let str = digits_of (nat \<bar>d_value d\<bar>);
            k = nat (- d_exp d);
            intPart = (if length str > k then take (length str - k) str else ''0'');
            fractionalPart =
              trim_zeros (if length str > k then drop (length str - k) str
                          else replicate (k - length str) (CHR ''0'') @ str);
            number = (if length fractionalPart > 0 then intPart @ ''.'' @ fractionalPart else intPart)
        in if d_value d < 0 then ''-'' @ number else number)"

text \<open>Reading: \<^verbatim>\<open>strconv.ParseInt\<close> in base 10 takes an optional sign and at least one digit.\<close>

fun parse_nat :: "string \<Rightarrow> nat \<Rightarrow> nat option" where
  "parse_nat [] acc = Some acc"
| "parse_nat (c # cs) acc =
     (case digit_of_char c of None \<Rightarrow> None | Some v \<Rightarrow> parse_nat cs (acc * 10 + v))"

definition ParseInt :: "string \<Rightarrow> int option" where
  "ParseInt s =
     (case s of
        [] \<Rightarrow> None
      | c # cs \<Rightarrow>
          if c = CHR ''-'' then (if cs = [] then None else map_option (\<lambda>n. - int n) (parse_nat cs 0))
          else if c = CHR ''+'' then (if cs = [] then None else map_option int (parse_nat cs 0))
          else map_option int (parse_nat s 0))"

definition NewFromString :: "string \<Rightarrow> Decimal option" where
  "NewFromString v =
     (case Split v (CHR ''.'') of
        [intString] \<Rightarrow> map_option (\<lambda>dValue. Decimal_of dValue 0) (ParseInt intString)
      | [ip, fp] \<Rightarrow> map_option (\<lambda>dValue. Decimal_of dValue (- int (length fp))) (ParseInt (ip @ fp))
      | _ \<Rightarrow> None)"

text \<open>
  The number a string of digits stands for, read from the left on top of \<open>acc\<close>; the
  proofs about \<open>String\<close> and \<open>NewFromString\<close> are stated with it.
\<close>

fun nat_of_digits :: "nat \<Rightarrow> string \<Rightarrow> nat" where
  "nat_of_digits acc [] = acc"
| "nat_of_digits acc (c # cs) =
     nat_of_digits (acc * 10 + (case digit_of_char c of None \<Rightarrow> 0 | Some v \<Rightarrow> v)) cs"

text \<open>
  What \<open>String\<close> prints after the sign, for the digits \<open>str\<close> of the absolute value
  and \<open>k\<close> fractional places.
\<close>

definition number_string :: "string \<Rightarrow> nat \<Rightarrow> string" where
  "number_string str k =
     (let intPart = (if length str > k then take (length str - k) str else ''0'');
          fractionalPart =
            trim_zeros (if length str > k then drop (length str - k) str
                        else replicate (k - length str) (CHR ''0'') @ str)
      in if length fractionalPart > 0 then intPart @ ''.'' @ fractionalPart else intPart)"

definition all_digits :: "string \<Rightarrow> bool" where
  "all_digits ds = (\<forall>c \<in> set ds. \<exists>v < 10. c = digit_char v)"

section \<open>Entities\<close>

text \<open>
  Identifiers are opaque (\<^verbatim>\<open>uuid.UUID\<close>); \<^verbatim>\<open>created_at\<close> is a point in time.
  Both are natural numbers here.
\<close>

type_synonym uuid = nat

datatype error =
    ErrInvalidPrice
  | ErrInvalidQuantity
  | ErrInvalidOrderType
  | ErrInvalidPairFormat
  | ErrMaxQuantity
  | ErrMaxPrice
  | ErrNew string
  | ErrGorm string
  | PanicIndexOutOfRange
  | PanicRequireFromString

text \<open>
  \<open>ErrNew m\<close> is \<^verbatim>\<open>errors.New(m)\<close> at the place that returns it, \<open>ErrGorm m\<close> an
  error the database layer reports, and the two panics are the runtime panics of an
  index out of range and of \<^verbatim>\<open>decimal.RequireFromString\<close>.
\<close>

definition RequireFromString :: "string \<Rightarrow> error + Decimal" where
  "RequireFromString v = (case NewFromString v of None \<Rightarrow> Inl PanicRequireFromString | Some d \<Rightarrow> Inr d)"

abbreviation OrderTypeBuy :: string where "OrderTypeBuy \<equiv> ''BUY''"
abbreviation OrderTypeSell :: string where "OrderTypeSell \<equiv> ''SELL''"

abbreviation OrderStatusOpen :: string where "OrderStatusOpen \<equiv> ''OPEN''"
abbreviation OrderStatusFilled :: string where "OrderStatusFilled \<equiv> ''FILLED''"
abbreviation OrderStatusPartial :: string where "OrderStatusPartial \<equiv> ''PARTIALLY_FILLED''"
abbreviation OrderStatusCancelled :: string where "OrderStatusCancelled \<equiv> ''CANCELLED''"

definition MaxQuantity :: int where "MaxQuantity = 1000"
definition MaxPrice :: int where "MaxPrice = 100000000"

record Order =
  ID :: uuid
  CreatedAt :: nat
  AccountID :: uuid
  InstrumentPair :: string
  OrderType :: string
  Price :: Decimal
  Quantity :: Decimal
  RemainingQuantity :: Decimal
  Status :: string

record Wallet =
  WalletID :: uuid
  WalletAccountID :: uuid
  AssetSymbol :: string
  Balance :: Decimal
  WalletDeletedAt :: "nat option"

record Trade =
  TradeID :: uuid
  BuyerOrderID :: uuid
  SellerOrderID :: uuid
  TradePrice :: Decimal
  TradeQuantity :: Decimal

definition IsValidInstrumentPair :: "string \<Rightarrow> bool" where
  "IsValidInstrumentPair pair =
     (let assets = Split pair (CHR ''_'')
      in length assets = 2 \<and> assets ! 0 \<noteq> [] \<and> assets ! 1 \<noteq> [])"

definition Validate :: "Order \<Rightarrow> error option" where
  "Validate ord =
     (if LessThanOrEqual (Price ord) Zero then Some ErrInvalidPrice
      else if LessThanOrEqual (Quantity ord) Zero then Some ErrInvalidQuantity
      else if GreaterThan (Quantity ord) (NewFromInt MaxQuantity) then Some ErrMaxQuantity
      else if GreaterThan (Price ord) (NewFromInt MaxPrice) then Some ErrMaxPrice
      else if OrderType ord \<noteq> OrderTypeBuy \<and> OrderType ord \<noteq> OrderTypeSell then Some ErrInvalidOrderType
      else if \<not> IsValidInstrumentPair (InstrumentPair ord) then Some ErrInvalidPairFormat
      else None)"

text \<open>
  \<^verbatim>\<open>GetRequiredAssetAndAmount\<close> indexes the pieces of the pair without a check;
  \<open>Inl PanicIndexOutOfRange\<close> is the panic of an index beyond the pieces.
\<close>

definition GetRequiredAssetAndAmount :: "Order \<Rightarrow> error + (string \<times> Decimal)" where
  "GetRequiredAssetAndAmount ord =
     (let assets = Split (InstrumentPair ord) (CHR ''_'')
      in if OrderType ord = OrderTypeBuy
         then (case at_index assets 1 of
                 None \<Rightarrow> Inl PanicIndexOutOfRange
               | Some a \<Rightarrow> Inr (a, Mul (Price ord) (Quantity ord)))
         else (case at_index assets 0 of
                 None \<Rightarrow> Inl PanicIndexOutOfRange
               | Some a \<Rightarrow> Inr (a, Quantity ord)))"

subsection \<open>The validation rules as the specification words them\<close>

text \<open>
  The specification lists the checks as an ordered list of conditions, each with the
  error of its failure; \<open>first_failure\<close> reads such a list the way the specification
  says: the first condition that does not hold decides.
\<close>

fun first_failure :: "(bool \<times> error) list \<Rightarrow> error option" where
  "first_failure [] = None"
| "first_failure ((holds, e) # cs) = (if holds then first_failure cs else Some e)"

text \<open>An instrument pair of exactly two non-empty components around one separator.\<close>

definition two_nonempty_components :: "string \<Rightarrow> bool" where
  "two_nonempty_components pair =
     (\<exists>b q. pair = b @ CHR ''_'' # q \<and> b \<noteq> [] \<and> q \<noteq> [] \<and>
        CHR ''_'' \<notin> set b \<and> CHR ''_'' \<notin> set q)"

section \<open>Repositories\<close>

text \<open>
  The use cases reach the database through three interfaces (\<^verbatim>\<open>repository/interfaces.go\<close>).
  An interface is a record of its methods over a state \<open>'s\<close>, the transaction the call
  runs in: a method that writes returns its error (\<open>None\<close> is \<^verbatim>\<open>nil\<close>) and the
  state it leaves; a method that reads returns its rows and its error. Only the methods
  the functions below call are listed.
\<close>

record 's WalletRepository =
  AddToBalance :: "'s \<Rightarrow> uuid \<Rightarrow> string \<Rightarrow> Decimal \<Rightarrow> error option \<times> 's"
  SubtractFromBalance :: "'s \<Rightarrow> uuid \<Rightarrow> string \<Rightarrow> Decimal \<Rightarrow> error option \<times> 's"

record 's OrderRepository =
  GetOpenOrdersByInstrumentPair :: "'s \<Rightarrow> string \<Rightarrow> Order list \<times> error option"
  UpdateRemainingAndStatus :: "'s \<Rightarrow> uuid \<Rightarrow> Decimal \<Rightarrow> string \<Rightarrow> error option \<times> 's"
  GetMatchingOrders ::
    "'s \<Rightarrow> uuid \<Rightarrow> string \<Rightarrow> string \<Rightarrow> Decimal \<Rightarrow> bool \<Rightarrow> Order list \<times> error option"

record 's TradeRepository =
  Create :: "'s \<Rightarrow> Trade \<Rightarrow> error option \<times> 's"

text \<open>
  \<^verbatim>\<open>if err := step; err != nil { return err }\<close> followed by the rest of the function:
  the rest runs on the state the step left, and only when the step returned no error.
\<close>

definition and_then :: "error option \<times> 's \<Rightarrow> ('s \<Rightarrow> error option \<times> 's) \<Rightarrow> error option \<times> 's" where
  "and_then r rest = (case r of (Some err, tx) \<Rightarrow> (Some err, tx) | (None, tx) \<Rightarrow> rest tx)"

subsection \<open>The database tables\<close>

text \<open>
  The repositories of \<^verbatim>\<open>repository/\<close> run SQL against the tables of
  \<^verbatim>\<open>scripts/schema.sql\<close>. A table is the list of its rows. \<open>db_fault\<close> stands for
  whatever makes the database refuse a statement (a lost connection, say): while it is
  set, every statement returns it as its error. Amounts are kept exactly; the rounding of
  a \<^verbatim>\<open>DECIMAL(20,8)\<close> column is not modelled.
\<close>

record db =
  wallet_table :: "Wallet list"
  order_table :: "Order list"
  trade_table :: "Trade list"
  db_fault :: "string option"

text \<open>
  \<^verbatim>\<open>ORDER BY\<close> and \<^verbatim>\<open>sort.Slice\<close>: the rows sorted by a strict "comes before"
  relation, here by insertion. Rows that the relation does not tell apart keep the order
  they had (neither SQL nor \<^verbatim>\<open>sort.Slice\<close> promises one for them).
\<close>

fun insert_by :: "('a \<Rightarrow> 'a \<Rightarrow> bool) \<Rightarrow> 'a \<Rightarrow> 'a list \<Rightarrow> 'a list" where
  "insert_by precedes x [] = [x]"
| "insert_by precedes x (y # ys) =
     (if precedes y x then y # insert_by precedes x ys else x # y # ys)"

fun sort_by :: "('a \<Rightarrow> 'a \<Rightarrow> bool) \<Rightarrow> 'a list \<Rightarrow> 'a list" where
  "sort_by precedes [] = []"
| "sort_by precedes (x # xs) = insert_by precedes x (sort_by precedes xs)"

subsection \<open>walletRepository\<close>

text \<open>
  \<^verbatim>\<open>UPDATE wallet SET balance = balance - ? WHERE account_id = ? AND asset_symbol = ?
  AND deleted_at IS NULL\<close> (or \<^verbatim>\<open>balance + ?\<close>), then the check of
  \<^verbatim>\<open>RowsAffected\<close>. The table of \<^verbatim>\<open>schema.sql\<close> puts no condition on
  \<^verbatim>\<open>balance\<close> beyond \<^verbatim>\<open>NOT NULL\<close>.
\<close>

definition walletRepository_updateBalance ::
  "db \<Rightarrow> uuid \<Rightarrow> string \<Rightarrow> Decimal \<Rightarrow> bool \<Rightarrow> error option \<times> db" where
  "walletRepository_updateBalance tx accountID assetSymbol amount isAdd =
     (case db_fault tx of
        Some m \<Rightarrow> (Some (ErrGorm m), tx)
      | None \<Rightarrow>
          let hit = (\<lambda>w. WalletAccountID w = accountID \<and> AssetSymbol w = assetSymbol
                          \<and> WalletDeletedAt w = None);
              updated = (\<lambda>w. w\<lparr>Balance := (if isAdd then Add (Balance w) amount
                                               else Sub (Balance w) amount)\<rparr>);
              RowsAffected = length (filter hit (wallet_table tx));
              tx' = tx\<lparr>wallet_table := map (\<lambda>w. if hit w then updated w else w) (wallet_table tx)\<rparr>
          in if RowsAffected = 0
             then (Some (ErrNew ''insufficient balance or wallet not found''), tx')
             else (None, tx'))"

definition walletRepository_SubtractFromBalance ::
  "db \<Rightarrow> uuid \<Rightarrow> string \<Rightarrow> Decimal \<Rightarrow> error option \<times> db" where
  "walletRepository_SubtractFromBalance tx accountID assetSymbol amount =
     walletRepository_updateBalance tx accountID assetSymbol amount False"

definition walletRepository_AddToBalance ::
  "db \<Rightarrow> uuid \<Rightarrow> string \<Rightarrow> Decimal \<Rightarrow> error option \<times> db" where
  "walletRepository_AddToBalance tx accountID assetSymbol amount =
     walletRepository_updateBalance tx accountID assetSymbol amount True"

definition NewWalletRepository :: "db WalletRepository" where
  "NewWalletRepository =
     \<lparr>AddToBalance = walletRepository_AddToBalance,
      SubtractFromBalance = walletRepository_SubtractFromBalance\<rparr>"

subsection \<open>orderRepository\<close>

text \<open>\<^verbatim>\<open>WHERE instrument_pair = ? AND status = ?\<close> with the status \<^verbatim>\<open>OPEN\<close>.\<close>

definition orderRepository_GetOpenOrdersByInstrumentPair ::
  "db \<Rightarrow> string \<Rightarrow> Order list \<times> error option" where
  "orderRepository_GetOpenOrdersByInstrumentPair tx instrumentPair =
     (case db_fault tx of
        Some m \<Rightarrow> ([], Some (ErrGorm m))
      | None \<Rightarrow>
          (filter (\<lambda>row. InstrumentPair row = instrumentPair \<and> Status row = OrderStatusOpen)
             (order_table tx), None))"

definition orderRepository_UpdateRemainingAndStatus ::
  "db \<Rightarrow> uuid \<Rightarrow> Decimal \<Rightarrow> string \<Rightarrow> error option \<times> db" where
  "orderRepository_UpdateRemainingAndStatus tx oid quantity status =
     (case db_fault tx of
        Some m \<Rightarrow> (Some (ErrGorm m), tx)
      | None \<Rightarrow>
          (None, tx\<lparr>order_table :=
             map (\<lambda>row. if ID row = oid then row\<lparr>RemainingQuantity := quantity, Status := status\<rparr>
                        else row) (order_table tx)\<rparr>))"

text \<open>
  The matching query: \<^verbatim>\<open>instrument_pair = ? AND order_type = ? AND status IN (?)
  AND account_id <> ?\<close> with the two resting statuses, then \<^verbatim>\<open>price <= ?\<close> and
  \<^verbatim>\<open>ORDER BY price ASC, created_at ASC\<close> for a buying taker, \<^verbatim>\<open>price >= ?\<close> and
  \<^verbatim>\<open>ORDER BY price DESC, created_at ASC\<close> otherwise. \<^verbatim>\<open>Find\<close> reports no
  error for an empty result, so the branch of the source for
  \<^verbatim>\<open>gorm.ErrRecordNotFound\<close> is never taken and has no counterpart here; the same
  holds for the query of the open orders.
\<close>

definition price_asc_created_asc :: "Order \<Rightarrow> Order \<Rightarrow> bool" where
  "price_asc_created_asc a b =
     (LessThan (Price a) (Price b) \<or> Equal (Price a) (Price b) \<and> CreatedAt a < CreatedAt b)"

definition price_desc_created_asc :: "Order \<Rightarrow> Order \<Rightarrow> bool" where
  "price_desc_created_asc a b =
     (GreaterThan (Price a) (Price b) \<or> Equal (Price a) (Price b) \<and> CreatedAt a < CreatedAt b)"

definition orderRepository_GetMatchingOrders ::
  "db \<Rightarrow> uuid \<Rightarrow> string \<Rightarrow> string \<Rightarrow> Decimal \<Rightarrow> bool \<Rightarrow> Order list \<times> error option" where
  "orderRepository_GetMatchingOrders tx accountID instrumentPair orderType price isBuyOrder =
     (case db_fault tx of
        Some m \<Rightarrow> ([], Some (ErrGorm m))
      | None \<Rightarrow>
          let query = filter (\<lambda>row. InstrumentPair row = instrumentPair \<and> OrderType row = orderType
                          \<and> Status row \<in> set [OrderStatusOpen, OrderStatusPartial]
                          \<and> AccountID row \<noteq> accountID) (order_table tx)
          in if isBuyOrder
             then (sort_by price_asc_created_asc
                     (filter (\<lambda>row. LessThanOrEqual (Price row) price) query), None)
             else (sort_by price_desc_created_asc
                     (filter (\<lambda>row. GreaterThanOrEqual (Price row) price) query), None))"

definition NewOrderRepository :: "db OrderRepository" where
  "NewOrderRepository =
     \<lparr>GetOpenOrdersByInstrumentPair = orderRepository_GetOpenOrdersByInstrumentPair,
      UpdateRemainingAndStatus = orderRepository_UpdateRemainingAndStatus,
      GetMatchingOrders = orderRepository_GetMatchingOrders\<rparr>"

subsection \<open>tradeRepository\<close>

text \<open>
  \<^verbatim>\<open>Trade.BeforeCreate\<close> gives a trade without an identifier a new one
  (\<^verbatim>\<open>uuid.New()\<close>); here the first number no trade of the table has.
\<close>

definition new_trade_id :: "Trade list \<Rightarrow> uuid" where
  "new_trade_id rows = Suc (fold max (map TradeID rows) 0)"

definition tradeRepository_Create :: "db \<Rightarrow> Trade \<Rightarrow> error option \<times> db" where
  "tradeRepository_Create tx trade =
     (case db_fault tx of
        Some m \<Rightarrow> (Some (ErrGorm m), tx)
      | None \<Rightarrow>
          let row = (if TradeID trade = 0 then trade\<lparr>TradeID := new_trade_id (trade_table tx)\<rparr>
                     else trade)
          in (None, tx\<lparr>trade_table := trade_table tx @ [row]\<rparr>))"

definition NewTradeRepository :: "db TradeRepository" where
  "NewTradeRepository = \<lparr>Create = tradeRepository_Create\<rparr>"

section \<open>Use cases\<close>

subsection \<open>tradeExecutor\<close>

record 's tradeExecutor =
  orderRepo :: "'s OrderRepository"
  walletRepo :: "'s WalletRepository"
  tradeRepo :: "'s TradeRepository"

definition NewTradeExecutor ::
  "'s OrderRepository \<Rightarrow> 's WalletRepository \<Rightarrow> 's TradeRepository \<Rightarrow> 's tradeExecutor" where
  "NewTradeExecutor orderRepo' walletRepo' tradeRepo' =
     \<lparr>orderRepo = orderRepo', walletRepo = walletRepo', tradeRepo = tradeRepo'\<rparr>"

text \<open>
  \<^verbatim>\<open>updateOrderStatus\<close> writes the order's remaining quantity and its new status, and
  sets the status of the order in memory once the write succeeded. The order is a
  pointer in the source; the function returns the order it leaves.
\<close>

definition updateOrderStatus ::
  "'s tradeExecutor \<Rightarrow> 's \<Rightarrow> Order \<Rightarrow> error option \<times> 's \<times> Order" where
  "updateOrderStatus e tx ord =
     (let newStatus =
            (if IsZero (RemainingQuantity ord) then OrderStatusFilled
             else if Equal (RemainingQuantity ord) (Quantity ord) then OrderStatusOpen
             else OrderStatusPartial)
      in case UpdateRemainingAndStatus (orderRepo e) tx (ID ord) (RemainingQuantity ord) newStatus of
           (Some err, tx') \<Rightarrow> (Some err, tx', ord)
         | (None, tx') \<Rightarrow> (None, tx', ord\<lparr>Status := newStatus\<rparr>))"

text \<open>
  \<^verbatim>\<open>settle\<close> takes the base and the quote asset from the pieces of the pair, without
  a check of their number, and moves the amounts in four steps.
\<close>

definition settle ::
  "'s tradeExecutor \<Rightarrow> 's \<Rightarrow> Order \<Rightarrow> Order \<Rightarrow> Decimal \<Rightarrow> error option \<times> 's" where
  "settle e tx order matchingOrder qty =
     (let parts = Split (InstrumentPair order) (CHR ''_'')
      in case at_index parts 0 of
           None \<Rightarrow> (Some PanicIndexOutOfRange, tx)
         | Some base \<Rightarrow>
        (case at_index parts 1 of
           None \<Rightarrow> (Some PanicIndexOutOfRange, tx)
         | Some quote \<Rightarrow>
             let buyer = (if OrderType order = ''SELL'' then matchingOrder else order);
                 seller = (if OrderType order = ''SELL'' then order else matchingOrder);
                 total = Mul (Price matchingOrder) qty
             in and_then (SubtractFromBalance (walletRepo e) tx (AccountID seller) base qty) (\<lambda>tx.
                and_then (AddToBalance (walletRepo e) tx (AccountID buyer) base qty) (\<lambda>tx.
                and_then (SubtractFromBalance (walletRepo e) tx (AccountID buyer) quote total) (\<lambda>tx.
                AddToBalance (walletRepo e) tx (AccountID seller) quote total)))))"

text \<open>
  \<^verbatim>\<open>Execute\<close> records the trade, takes the quantity off both orders, writes both and
  settles. Both orders are pointers; the result carries them as the call leaves them.
  The trade has no identifier yet (\<^verbatim>\<open>uuid.Nil\<close>, here 0) when it is handed over.
\<close>

definition Execute ::
  "'s tradeExecutor \<Rightarrow> 's \<Rightarrow> Order \<Rightarrow> Order \<Rightarrow> Decimal \<Rightarrow> error option \<times> 's \<times> Order \<times> Order" where
  "Execute e tx order matchingOrder qty =
     (let buyID = (if OrderType order = ''SELL'' then ID matchingOrder else ID order);
          sellID = (if OrderType order = ''SELL'' then ID order else ID matchingOrder);
          trade = \<lparr>TradeID = 0, BuyerOrderID = buyID, SellerOrderID = sellID,
                   TradePrice = Price matchingOrder, TradeQuantity = qty\<rparr>
      in case Create (tradeRepo e) tx trade of
           (Some err, tx) \<Rightarrow> (Some err, tx, order, matchingOrder)
         | (None, tx) \<Rightarrow>
             let order = order\<lparr>RemainingQuantity := Sub (RemainingQuantity order) qty\<rparr>;
                 matchingOrder =
                   matchingOrder\<lparr>RemainingQuantity := Sub (RemainingQuantity matchingOrder) qty\<rparr>
             in case updateOrderStatus e tx order of
                  (Some err, tx, order) \<Rightarrow> (Some err, tx, order, matchingOrder)
                | (None, tx, order) \<Rightarrow>
               (case updateOrderStatus e tx matchingOrder of
                  (Some err, tx, matchingOrder) \<Rightarrow> (Some err, tx, order, matchingOrder)
                | (None, tx, matchingOrder) \<Rightarrow>
                    (case settle e tx order matchingOrder qty of
                       (err, tx) \<Rightarrow> (err, tx, order, matchingOrder))))"

subsection \<open>orderUseCase\<close>

text \<open>
  The use case holds its repositories and its executor; the executor is an interface of
  one method, \<^verbatim>\<open>Execute\<close>, and \<^verbatim>\<open>NewOrderUseCase\<close> builds it from the same
  repositories.
\<close>

record 's orderUseCase =
  orderRepository :: "'s OrderRepository"
  executor :: "'s \<Rightarrow> Order \<Rightarrow> Order \<Rightarrow> Decimal \<Rightarrow> error option \<times> 's \<times> Order \<times> Order"

definition NewOrderUseCase ::
  "'s OrderRepository \<Rightarrow> 's WalletRepository \<Rightarrow> 's TradeRepository \<Rightarrow> 's orderUseCase" where
  "NewOrderUseCase orderRepo' walletRepo' tradeRepo' =
     \<lparr>orderRepository = orderRepo',
      executor = Execute (NewTradeExecutor orderRepo' walletRepo' tradeRepo')\<rparr>"

text \<open>
  The loop of \<^verbatim>\<open>matchOrder\<close> over the orders the query returned. The taker is a
  pointer that \<^verbatim>\<open>Execute\<close> writes through; the result carries the taker as the loop
  leaves it.
\<close>

fun matchOrder_loop ::
  "'s orderUseCase \<Rightarrow> 's \<Rightarrow> Order \<Rightarrow> Order list \<Rightarrow> error option \<times> 's \<times> Order" where
  "matchOrder_loop u tx order [] = (None, tx, order)"
| "matchOrder_loop u tx order (matchingOrder # rest) =
     (let qty = Min2 (RemainingQuantity order) (RemainingQuantity matchingOrder)
      in case executor u tx order matchingOrder qty of
           (Some err, tx, order, _) \<Rightarrow> (Some err, tx, order)
         | (None, tx, order, _) \<Rightarrow>
             if IsZero (RemainingQuantity order) then (None, tx, order)
             else matchOrder_loop u tx order rest)"

definition matchOrder :: "'s orderUseCase \<Rightarrow> 's \<Rightarrow> Order \<Rightarrow> error option \<times> 's \<times> Order" where
  "matchOrder u tx order =
     (let oppositeOrderType = (if OrderType order = ''SELL'' then ''BUY'' else ''SELL'')
      in case GetMatchingOrders (orderRepository u) tx (AccountID order) (InstrumentPair order)
                oppositeOrderType (Price order) (OrderType order = ''BUY'') of
           (_, Some err) \<Rightarrow> (Some err, tx, order)
         | (matchingOrders, None) \<Rightarrow>
             if length matchingOrders = 0 then (None, tx, order)
             else matchOrder_loop u tx order matchingOrders)"

subsection \<open>The order book\<close>

record OrderBookEntry =
  EntryPrice :: Decimal
  EntryQuantity :: Decimal

record OrderBook =
  BookInstrumentPair :: string
  Bids :: "OrderBookEntry list"
  Asks :: "OrderBookEntry list"

text \<open>
  A \<^verbatim>\<open>map[string]decimal.Decimal\<close> is the list of its entries, one per key. Reading a
  key that is not there gives the zero value \<^verbatim>\<open>Decimal{}\<close>, which the library
  takes for 0 with exponent 0; assigning to a key replaces its entry or adds one.
\<close>

definition map_get :: "(string \<times> Decimal) list \<Rightarrow> string \<Rightarrow> Decimal" where
  "map_get m k = (case map_of m k of None \<Rightarrow> Decimal_of 0 0 | Some v \<Rightarrow> v)"

fun map_set :: "(string \<times> Decimal) list \<Rightarrow> string \<Rightarrow> Decimal \<Rightarrow> (string \<times> Decimal) list" where
  "map_set [] k v = [(k, v)]"
| "map_set ((k', v') # m) k v = (if k' = k then (k, v) # m else (k', v') # map_set m k v)"

text \<open>
  The first loop of \<^verbatim>\<open>GetOrderBook\<close>: every order adds what remains of it to the
  entry of its price, in the map of its side
  (\<^verbatim>\<open>m[order.Price.String()] = m[order.Price.String()].Add(order.RemainingQuantity)\<close>).
\<close>

definition add_to_level :: "(string \<times> Decimal) list \<Rightarrow> Order \<Rightarrow> (string \<times> Decimal) list" where
  "add_to_level m order =
     map_set m (String (Price order)) (Add (map_get m (String (Price order))) (RemainingQuantity order))"

fun aggregate ::
  "Order list \<Rightarrow> (string \<times> Decimal) list \<Rightarrow> (string \<times> Decimal) list \<Rightarrow>
   (string \<times> Decimal) list \<times> (string \<times> Decimal) list" where
  "aggregate [] bidsMap asksMap = (bidsMap, asksMap)"
| "aggregate (order # rest) bidsMap asksMap =
     (if OrderType order = ''BUY'' then aggregate rest (add_to_level bidsMap order) asksMap
      else aggregate rest bidsMap (add_to_level asksMap order))"

text \<open>
  The loops over the keys of a map, \<^verbatim>\<open>append(prices, decimal.RequireFromString(p))\<close>;
  a key that does not read as a decimal panics.
\<close>

fun parse_keys :: "string list \<Rightarrow> error + Decimal list" where
  "parse_keys [] = Inr []"
| "parse_keys (p # ps) =
     (case RequireFromString p of
        Inl e \<Rightarrow> Inl e
      | Inr d \<Rightarrow> (case parse_keys ps of Inl e \<Rightarrow> Inl e | Inr ds \<Rightarrow> Inr (d # ds)))"

definition entries :: "(string \<times> Decimal) list \<Rightarrow> Decimal list \<Rightarrow> OrderBookEntry list" where
  "entries m prices = map (\<lambda>p. \<lparr>EntryPrice = p, EntryQuantity = map_get m (String p)\<rparr>) prices"

text \<open>
  \<^verbatim>\<open>GetOrderBook\<close> returns \<^verbatim>\<open>(nil, err)\<close>, \<^verbatim>\<open>(nil, nil)\<close> or a book:
  \<open>Inl err\<close>, \<open>Inr None\<close>, \<open>Inr (Some book)\<close>. Go does not fix the order in which
  \<^verbatim>\<open>range\<close> visits the keys of a map: \<open>range_keys\<close> is that order, a function that
  permutes the keys.
\<close>

definition GetOrderBook ::
  "(string list \<Rightarrow> string list) \<Rightarrow> 's orderUseCase \<Rightarrow> 's \<Rightarrow> string \<Rightarrow> error + OrderBook option" where
  "GetOrderBook range_keys u tx instrumentPair =
     (if \<not> IsValidInstrumentPair instrumentPair then Inl ErrInvalidPairFormat
      else case GetOpenOrdersByInstrumentPair (orderRepository u) tx instrumentPair of
             (_, Some err) \<Rightarrow> Inl err
           | (orders, None) \<Rightarrow>
               if length orders = 0 then Inr None
               else case aggregate orders [] [] of (bidsMap, asksMap) \<Rightarrow>
                 (case parse_keys (range_keys (map fst bidsMap)) of
                    Inl panic \<Rightarrow> Inl panic
                  | Inr bidPrices \<Rightarrow>
                 (case parse_keys (range_keys (map fst asksMap)) of
                    Inl panic \<Rightarrow> Inl panic
                  | Inr askPrices \<Rightarrow>
                      Inr (Some \<lparr>BookInstrumentPair = instrumentPair,
                                 Bids = entries bidsMap (sort_by GreaterThan bidPrices),
                                 Asks = entries asksMap (sort_by LessThan askPrices)\<rparr>))))"

section \<open>The specification's wording of settlement, matching and the book\<close>

text \<open>
  The definitions of this section follow the specification, not the code; the theorems
  compare the code with them.

  A settlement is a list of legs, each a debit or a credit of an amount of an asset on an
  account, performed in the order of the list; the first leg that fails ends the
  settlement with its error, and the legs after it are not performed.
\<close>

datatype leg = Debit uuid string Decimal | Credit uuid string Decimal

fun perform_leg :: "'s WalletRepository \<Rightarrow> 's \<Rightarrow> leg \<Rightarrow> error option \<times> 's" where
  "perform_leg ledger tx (Debit account asset amount) = SubtractFromBalance ledger tx account asset amount"
| "perform_leg ledger tx (Credit account asset amount) = AddToBalance ledger tx account asset amount"

fun perform_legs :: "'s WalletRepository \<Rightarrow> 's \<Rightarrow> leg list \<Rightarrow> error option \<times> 's" where
  "perform_legs ledger tx [] = (None, tx)"
| "perform_legs ledger tx (l # ls) =
     (case perform_leg ledger tx l of
        (Some err, tx') \<Rightarrow> (Some err, tx')
      | (None, tx') \<Rightarrow> perform_legs ledger tx' ls)"

text \<open>
  Matching walks the makers in their priority order. Each maker trades the smaller of
  what the taker has left and what the maker has left; when that leaves the taker
  nothing, the makers after it are not touched. \<open>fills\<close> is the list of trades this
  gives, and \<open>settle_fills\<close> hands them to the settlement one after the other, ending
  with the error of the first that fails.
\<close>

fun fills :: "Decimal \<Rightarrow> Order list \<Rightarrow> (Order \<times> Decimal) list" where
  "fills remaining [] = []"
| "fills remaining (maker # makers) =
     (let qty = Min2 remaining (RemainingQuantity maker)
      in (maker, qty) # (if IsZero (Sub remaining qty) then [] else fills (Sub remaining qty) makers))"

fun settle_fills ::
  "('s \<Rightarrow> Order \<Rightarrow> Order \<Rightarrow> Decimal \<Rightarrow> error option \<times> 's \<times> Order \<times> Order) \<Rightarrow>
   's \<Rightarrow> Order \<Rightarrow> (Order \<times> Decimal) list \<Rightarrow> error option \<times> 's \<times> Order" where
  "settle_fills settlement tx taker [] = (None, tx, taker)"
| "settle_fills settlement tx taker ((maker, qty) # rest) =
     (case settlement tx taker maker qty of
        (Some err, tx', taker', _) \<Rightarrow> (Some err, tx', taker')
      | (None, tx', taker', _) \<Rightarrow> settle_fills settlement tx' taker' rest)"

text \<open>
  The status of an order after a trade, for what is left of it and its original
  quantity.
\<close>

definition status_after_trade :: "rat \<Rightarrow> rat \<Rightarrow> string \<Rightarrow> bool" where
  "status_after_trade remaining original status =
     ((remaining = 0 \<longrightarrow> status = ''FILLED'')
      \<and> (remaining = original \<longrightarrow> status = ''OPEN'')
      \<and> (0 < remaining \<and> remaining < original \<longrightarrow> status = ''PARTIALLY_FILLED''))"

text \<open>
  The makers a taker may trade with: the resting orders of the other side on the same
  pair, of another account, open or partially filled, at a price the taker accepts.
  Price-time priority between two of them: the better price for the taker first, and at
  the same price the earlier order first.
\<close>

definition eligible_maker :: "Order \<Rightarrow> Order \<Rightarrow> bool" where
  "eligible_maker taker maker =
     (InstrumentPair maker = InstrumentPair taker
      \<and> (OrderType taker = ''BUY'' \<and> OrderType maker = ''SELL''
           \<or> OrderType taker = ''SELL'' \<and> OrderType maker = ''BUY'')
      \<and> AccountID maker \<noteq> AccountID taker
      \<and> (Status maker = ''OPEN'' \<or> Status maker = ''PARTIALLY_FILLED'')
      \<and> (if OrderType taker = ''BUY'' then dval (Price maker) \<le> dval (Price taker)
          else dval (Price taker) \<le> dval (Price maker)))"

definition price_time_priority :: "Order \<Rightarrow> Order \<Rightarrow> Order \<Rightarrow> bool" where
  "price_time_priority taker a b =
     ((if OrderType taker = ''BUY'' then dval (Price a) < dval (Price b)
       else dval (Price b) < dval (Price a))
      \<or> dval (Price a) = dval (Price b) \<and> CreatedAt a \<le> CreatedAt b)"

text \<open>
  The levels of one side of the book: for every price some order of the side has, the
  sum of what remains of the orders at that price.
\<close>

definition total_remaining :: "Order list \<Rightarrow> rat \<Rightarrow> rat" where
  "total_remaining side p =
     sum_list (map (\<lambda>ord. dval (RemainingQuantity ord)) (filter (\<lambda>ord. dval (Price ord) = p) side))"

definition levels_of :: "Order list \<Rightarrow> (rat \<times> rat) set" where
  "levels_of side = (\<lambda>ord. (dval (Price ord), total_remaining side (dval (Price ord)))) ` set side"

definition level :: "OrderBookEntry \<Rightarrow> rat \<times> rat" where
  "level entry = (dval (EntryPrice entry), dval (EntryQuantity entry))"

section \<open>The wiring of the program\<close>

text \<open>
  \<^verbatim>\<open>cmd/main.go\<close> builds the use case from the three repositories of the database.
\<close>

definition main_executor :: "db tradeExecutor" where
  "main_executor = NewTradeExecutor NewOrderRepository NewWalletRepository NewTradeRepository"

definition main_orderUseCase :: "db orderUseCase" where
  "main_orderUseCase = NewOrderUseCase NewOrderRepository NewWalletRepository NewTradeRepository"

section \<open>Sample data\<close>

text \<open>
  Two accounts with a BTC and a BRL wallet each, a buy order of account 10 and an older
  sell order of account 20 on BTC_BRL; the theorems are tried on them.
\<close>

definition sample_buy :: Order where
  "sample_buy =
     \<lparr>ID = 1, CreatedAt = 5, AccountID = 10, InstrumentPair = ''BTC_BRL'', OrderType = ''BUY'',
      Price = Decimal_of 200000 0, Quantity = Decimal_of 5 (- 1),
      RemainingQuantity = Decimal_of 5 (- 1), Status = ''OPEN''\<rparr>"

definition sample_sell :: Order where
  "sample_sell =
     \<lparr>ID = 2, CreatedAt = 3, AccountID = 20, InstrumentPair = ''BTC_BRL'', OrderType = ''SELL'',
      Price = Decimal_of 190000 0, Quantity = Decimal_of 1 0,
      RemainingQuantity = Decimal_of 1 0, Status = ''OPEN''\<rparr>"

definition sample_wallets :: "Wallet list" where
  "sample_wallets =
     [\<lparr>WalletID = 1, WalletAccountID = 10, AssetSymbol = ''BTC'', Balance = Decimal_of 0 0,
       WalletDeletedAt = None\<rparr>,
      \<lparr>WalletID = 2, WalletAccountID = 10, AssetSymbol = ''BRL'', Balance = Decimal_of 200000 0,
       WalletDeletedAt = None\<rparr>,
      \<lparr>WalletID = 3, WalletAccountID = 20, AssetSymbol = ''BTC'', Balance = Decimal_of 1 0,
       WalletDeletedAt = None\<rparr>,
      \<lparr>WalletID = 4, WalletAccountID = 20, AssetSymbol = ''BRL'', Balance = Decimal_of 0 0,
       WalletDeletedAt = None\<rparr>]"

definition sample_db :: db where
  "sample_db =
     \<lparr>wallet_table = sample_wallets, order_table = [sample_sell, sample_buy], trade_table = [],
      db_fault = None\<rparr>"

text \<open>
  A table of sell orders on BTC_BRL for a buyer of account 10 with the limit 100: at 99
  and at 100 (twice, the one of account 30 older) from other accounts, at 101 (too
  dear), at 99 from account 10 itself, and a filled one at 98.
\<close>

definition sample_ask :: "uuid \<Rightarrow> nat \<Rightarrow> uuid \<Rightarrow> int \<Rightarrow> string \<Rightarrow> Order" where
  "sample_ask oid created account price status =
     \<lparr>ID = oid, CreatedAt = created, AccountID = account, InstrumentPair = ''BTC_BRL'',
      OrderType = ''SELL'', Price = Decimal_of price 0, Quantity = Decimal_of 1 0,
      RemainingQuantity = Decimal_of 1 0, Status = status\<rparr>"

definition sample_asks :: db where
  "sample_asks =
     \<lparr>wallet_table = sample_wallets,
      order_table =
        [sample_ask 11 2 20 100 ''OPEN'', sample_ask 12 7 20 99 ''PARTIALLY_FILLED'',
         sample_ask 13 3 20 101 ''OPEN'', sample_ask 14 1 30 100 ''OPEN'',
         sample_ask 15 4 10 99 ''OPEN'', sample_ask 16 0 30 98 ''FILLED''],
      trade_table = [], db_fault = None\<rparr>"

definition sample_bid :: Order where
  "sample_bid =
     \<lparr>ID = 17, CreatedAt = 9, AccountID = 10, InstrumentPair = ''BTC_BRL'', OrderType = ''BUY'',
      Price = Decimal_of 100 0, Quantity = Decimal_of 2 0, RemainingQuantity = Decimal_of 2 0,
      Status = ''OPEN''\<rparr>"

text \<open>
  A table of open orders on BTC_BRL: bids at 200000 (twice, once written 200000.00) and
  at 199000, and the ask of account 20 at 190000.
\<close>

definition sample_open_orders :: db where
  "sample_open_orders =
     \<lparr>wallet_table = sample_wallets,
      order_table =
        [sample_buy\<lparr>ID := 21, Price := Decimal_of 199000 0\<rparr>,
         sample_buy,
         sample_sell,
         sample_buy\<lparr>ID := 22, Price := Decimal_of 20000000 (- 2),
           RemainingQuantity := Decimal_of 4 (- 1), Quantity := Decimal_of 4 (- 1)\<rparr>],
      trade_table = [], db_fault = None\<rparr>"

text \<open>Two open bids of account 10 on BTC_BRL, at "100" with 1.0 and at "100.00" with 0.4.\<close>

definition sample_two_bids :: db where
  "sample_two_bids =
     \<lparr>wallet_table = sample_wallets,
      order_table =
        [sample_buy\<lparr>ID := 31, Price := Decimal_of 100 0, Quantity := Decimal_of 10 (- 1),
           RemainingQuantity := Decimal_of 10 (- 1)\<rparr>,
         sample_buy\<lparr>ID := 32, Price := Decimal_of 10000 (- 2), Quantity := Decimal_of 4 (- 1),
           RemainingQuantity := Decimal_of 4 (- 1)\<rparr>],
      trade_table = [], db_fault = None\<rparr>"

section \<open>Decimals: the operations compute on the numbers\<close>


lemma dval_Decimal_of: "dval (Decimal_of v e) = of_int v * 10 powi e"
  by (simp add: dval_def Decimal_of_def)

lemma d_exp_Decimal_of: "d_exp (Decimal_of v e) = e"
  by (simp add: Decimal_of_def)

lemma d_value_Decimal_of: "d_value (Decimal_of v e) = v"
  by (simp add: Decimal_of_def)

lemma powi_split: 
  assumes "e \<le> f" shows "(10::rat) powi f = 10 ^ nat (f - e) * 10 powi e"
proof -
  have "(10::rat) powi f = 10 powi (int (nat (f - e)) + e)"
    using assms by simp
  also have "\<dots> = 10 powi int (nat (f - e)) * 10 powi e"
    by (rule power_int_add) simp
  also have "\<dots> = 10 ^ nat (f - e) * 10 powi e"
    by (simp only: power_int_of_nat)
  finally show ?thesis .
qed

lemma dval_rescale_down: 
  assumes "e \<le> d_exp d" shows "dval (rescale d e) = dval d"
proof (cases "d_exp d = e")
  case True then show ?thesis by (simp add: rescale_def)
next
  case False
  with assms have r: "rescale d e = Decimal_of (d_value d * 10 ^ nat (d_exp d - e)) e"
    by (simp add: rescale_def)
  show ?thesis
    unfolding r dval_Decimal_of
    by (simp add: dval_def powi_split [OF assms])
qed

lemma d_exp_rescale: "d_exp (rescale d e) = e"
  by (simp add: rescale_def d_exp_Decimal_of)

lemma same_exp_less: 
  assumes e: "d_exp a = d_exp b" shows "(dval a < dval b) = (d_value a < d_value b)"
proof -
  have p: "(0::rat) < 10 powi (d_exp b)"
    by (rule zero_less_power_int) simp
  have "(dval a < dval b) = (rat_of_int (d_value a) < rat_of_int (d_value b))"
    unfolding dval_def e using p by (rule mult_less_cancel_right_pos)
  then show ?thesis by simp
qed

lemma same_exp_eq: "d_exp a = d_exp b \<Longrightarrow> (dval a = dval b) = (d_value a = d_value b)"
  by (simp add: dval_def)


lemma RescalePair_props:
  "\<exists>a b. RescalePair d d2 = (a, b) \<and> d_exp a = d_exp b \<and> dval a = dval d \<and> dval b = dval d2"
proof (cases "d_exp d < d_exp d2")
  case True
  then have "RescalePair d d2 = (d, rescale d2 (d_exp d))"
    by (simp add: RescalePair_def)
  moreover have "dval (rescale d2 (d_exp d)) = dval d2"
    using True by (intro dval_rescale_down) simp
  ultimately show ?thesis
    by (simp add: d_exp_rescale)
next
  case False
  show ?thesis
  proof (cases "d_exp d > d_exp d2")
    case True
    then have "RescalePair d d2 = (rescale d (d_exp d2), d2)"
      by (simp add: RescalePair_def)
    moreover have "dval (rescale d (d_exp d2)) = dval d"
      using True by (intro dval_rescale_down) simp
    ultimately show ?thesis
      by (simp add: d_exp_rescale)
  next
    case F2: False
    with False have "RescalePair d d2 = (d, d2)" "d_exp d = d_exp d2"
      by (simp_all add: RescalePair_def)
    then show ?thesis
      by simp
  qed
qed

lemma same_exp_Cmp:
  "d_exp a = d_exp b \<Longrightarrow>
   int_Cmp (d_value a) (d_value b) = (if dval a < dval b then - 1 else if dval a = dval b then 0 else 1)"
  by (simp add: int_Cmp_def same_exp_less same_exp_eq)

lemma Cmp_dval: "Cmp d d2 = (if dval d < dval d2 then - 1 else if dval d = dval d2 then 0 else 1)"
proof (cases "d_exp d = d_exp d2")
  case True
  then show ?thesis
    by (simp add: Cmp_def same_exp_Cmp)
next
  case False
  obtain a b where r: "RescalePair d d2 = (a, b)" "d_exp a = d_exp b"
    "dval a = dval d" "dval b = dval d2"
    using RescalePair_props [of d d2] by blast
  have "int_Cmp (d_value a) (d_value b) = (if dval a < dval b then - 1 else if dval a = dval b then 0 else 1)"
    using r(2) by (rule same_exp_Cmp)
  with False r show ?thesis
    by (simp add: Cmp_def)
qed

lemma Equal_dval: "Equal a b = (dval a = dval b)"
  by (simp add: Equal_def Cmp_dval)

lemma LessThan_dval: "LessThan a b = (dval a < dval b)"
  by (simp add: LessThan_def Cmp_dval)

lemma GreaterThan_dval: "GreaterThan a b = (dval b < dval a)"
  by (auto simp add: GreaterThan_def Cmp_dval)

lemma LessThanOrEqual_dval: "LessThanOrEqual a b = (dval a \<le> dval b)"
  by (auto simp add: LessThanOrEqual_def Cmp_dval)

lemma GreaterThanOrEqual_dval: "GreaterThanOrEqual a b = (dval b \<le> dval a)"
  by (auto simp add: GreaterThanOrEqual_def Cmp_dval)

lemma IsZero_dval: "IsZero d = (dval d = 0)"
  by (simp add: IsZero_def dval_def sgn_if)

lemma same_exp_add: "d_exp a = d_exp b \<Longrightarrow>
   dval (Decimal_of (d_value a + d_value b) (d_exp a)) = dval a + dval b"
  by (simp add: dval_def Decimal_of_def distrib_right)

lemma same_exp_sub: "d_exp a = d_exp b \<Longrightarrow>
   dval (Decimal_of (d_value a - d_value b) (d_exp a)) = dval a - dval b"
  by (simp add: dval_def Decimal_of_def left_diff_distrib)

lemma dval_Add: "dval (Add d d2) = dval d + dval d2"
proof -
  obtain a b where r: "RescalePair d d2 = (a, b)" "d_exp a = d_exp b"
    "dval a = dval d" "dval b = dval d2"
    using RescalePair_props [of d d2] by blast
  have "dval (Add d d2) = dval a + dval b"
    using same_exp_add [OF r(2)] by (simp add: Add_def r(1))
  then show ?thesis
    by (simp add: r)
qed

lemma dval_Sub: "dval (Sub d d2) = dval d - dval d2"
proof -
  obtain a b where r: "RescalePair d d2 = (a, b)" "d_exp a = d_exp b"
    "dval a = dval d" "dval b = dval d2"
    using RescalePair_props [of d d2] by blast
  have "dval (Sub d d2) = dval a - dval b"
    using same_exp_sub [OF r(2)] by (simp add: Sub_def r(1))
  then show ?thesis
    by (simp add: r)
qed


lemma dval_Min2: "dval (Min2 a b) = min (dval a) (dval b)"
  by (simp add: Min2_def Cmp_dval min_def)

lemma dval_Zero: "dval Zero = 0"
  by (simp add: Zero_def dval_Decimal_of)

lemma dval_NewFromInt: "dval (NewFromInt v) = of_int v"
  by (simp add: NewFromInt_def dval_Decimal_of)

section \<open>Instrument pairs and validation\<close>

lemma Split_nonempty: "Split xs c \<noteq> []"
  by (induction xs) (auto split: list.splits)

lemma Split_no_sep: "c \<notin> set a \<Longrightarrow> Split a c = [a]"
  by (induction a) auto

lemma Split_append_sep: "c \<notin> set a \<Longrightarrow> Split (a @ c # b) c = a # Split b c"
  by (induction a) auto

lemma Split_head:
  "Split xs c = a # rest \<Longrightarrow>
   c \<notin> set a \<and> (rest = [] \<and> xs = a \<or> (\<exists>ys. xs = a @ c # ys \<and> Split ys c = rest))"
proof (induction xs arbitrary: a rest)
  case Nil
  then show ?case by simp
next
  case (Cons x xs)
  show ?case
  proof (cases "x = c")
    case True
    with Cons.prems have "a = []" "rest = Split xs c"
      by simp_all
    with True show ?thesis
      by simp
  next
    case False
    obtain p ps where sp: "Split xs c = p # ps"
      using Split_nonempty [of xs c] by (cases "Split xs c") auto
    with False Cons.prems have a: "a = x # p" "rest = ps"
      by simp_all
    from Cons.IH [OF sp] have
      "c \<notin> set p \<and> (ps = [] \<and> xs = p \<or> (\<exists>ys. xs = p @ c # ys \<and> Split ys c = ps))" .
    with a False show ?thesis
      by auto
  qed
qed

lemma Split_two:
  "(Split xs c = [a, b]) = (xs = a @ c # b \<and> c \<notin> set a \<and> c \<notin> set b)"
proof
  assume s: "Split xs c = [a, b]"
  from Split_head [OF s] obtain ys where
    a: "c \<notin> set a" and ys: "xs = a @ c # ys" "Split ys c = [b]"
    by auto
  from Split_head [OF ys(2)] have "c \<notin> set b" "ys = b"
    using Split_nonempty by auto
  with a ys show "xs = a @ c # b \<and> c \<notin> set a \<and> c \<notin> set b"
    by simp
next
  assume "xs = a @ c # b \<and> c \<notin> set a \<and> c \<notin> set b"
  then show "Split xs c = [a, b]"
    by (simp add: Split_append_sep Split_no_sep)
qed

lemma IsValidInstrumentPair_iff:
  "IsValidInstrumentPair pair = two_nonempty_components pair"
proof
  assume "IsValidInstrumentPair pair"
  then obtain a b where s: "Split pair (CHR ''_'') = [a, b]" and ne: "a \<noteq> []" "b \<noteq> []"
    by (auto simp: IsValidInstrumentPair_def Let_def length_Suc_conv numeral_2_eq_2)
  from s have "pair = a @ CHR ''_'' # b \<and> CHR ''_'' \<notin> set a \<and> CHR ''_'' \<notin> set b"
    using Split_two [of pair "CHR ''_''" a b] by blast
  with ne show "two_nonempty_components pair"
    unfolding two_nonempty_components_def by blast
next
  assume "two_nonempty_components pair"
  then obtain a b where p: "pair = a @ CHR ''_'' # b" "a \<noteq> []" "b \<noteq> []"
      "CHR ''_'' \<notin> set a" "CHR ''_'' \<notin> set b"
    unfolding two_nonempty_components_def by blast
  then have "Split pair (CHR ''_'') = [a, b]"
    by (simp add: Split_append_sep Split_no_sep)
  with p show "IsValidInstrumentPair pair"
    by (simp add: IsValidInstrumentPair_def)
qed

section \<open>Validation and required coverage\<close>

text \<open>
  Claim C8. Validation runs its six checks in the order price above zero, quantity above
  zero, quantity within the maximum, price within the maximum, side BUY or SELL, pair of
  two non-empty components; the first check that fails decides the error, each check has
  an error of its own, and an order that passes them all validates without an error.
  \<open>Validate\<close> returns nothing but the error: it has no effect on the order.
\<close>

theorem Validate_checks_in_order:
  "Validate ord = first_failure
     [(0 < dval (Price ord), ErrInvalidPrice),
      (0 < dval (Quantity ord), ErrInvalidQuantity),
      (dval (Quantity ord) \<le> of_int MaxQuantity, ErrMaxQuantity),
      (dval (Price ord) \<le> of_int MaxPrice, ErrMaxPrice),
      (OrderType ord = ''BUY'' \<or> OrderType ord = ''SELL'', ErrInvalidOrderType),
      (two_nonempty_components (InstrumentPair ord), ErrInvalidPairFormat)]
   \<and> distinct [ErrInvalidPrice, ErrInvalidQuantity, ErrMaxQuantity, ErrMaxPrice,
        ErrInvalidOrderType, ErrInvalidPairFormat]
   \<and> MaxQuantity = 1000 \<and> MaxPrice = 100000000"
  by (simp add: Validate_def LessThanOrEqual_dval GreaterThan_dval dval_Zero dval_NewFromInt
      MaxQuantity_def MaxPrice_def IsValidInstrumentPair_iff not_le not_less)

theorem Validate_checks_in_order_witness:
  "Validate \<lparr>ID = 1, CreatedAt = 0, AccountID = 1, InstrumentPair = ''BTCBRL'',
      OrderType = ''HOLD'', Price = Decimal_of 5 0, Quantity = Decimal_of 10001 (- 1),
      RemainingQuantity = Zero, Status = ''''\<rparr> = Some ErrMaxQuantity"
  using Validate_checks_in_order [of "\<lparr>ID = 1, CreatedAt = 0, AccountID = 1,
      InstrumentPair = ''BTCBRL'', OrderType = ''HOLD'', Price = Decimal_of 5 0,
      Quantity = Decimal_of 10001 (- 1), RemainingQuantity = Zero, Status = ''''\<rparr>"]
  by (simp add: dval_Decimal_of MaxQuantity_def)

lemma at_index_Split_two:
  assumes "pair = base @ c # quote" "c \<notin> set base" "c \<notin> set quote"
  shows "at_index (Split pair c) 0 = Some base" "at_index (Split pair c) 1 = Some quote"
proof -
  have "Split pair c = [base, quote]"
    using assms by (simp add: Split_append_sep Split_no_sep)
  then show "at_index (Split pair c) 0 = Some base" "at_index (Split pair c) 1 = Some quote"
    by (simp_all add: at_index_def)
qed



section \<open>Settlement\<close>

lemma and_then_None: "and_then (None, tx) rest = rest tx"
  by (simp add: and_then_def)

lemma and_then_Some: "and_then (Some err, tx) rest = (Some err, tx)"
  by (simp add: and_then_def)

lemma settle_on_pair:
  assumes "Split (InstrumentPair order) (CHR ''_'') = base # quote # others"
  shows "settle e tx order matchingOrder qty =
     perform_legs (walletRepo e) tx
       [Debit (AccountID (if OrderType order = ''SELL'' then order else matchingOrder)) base qty,
        Credit (AccountID (if OrderType order = ''SELL'' then matchingOrder else order)) base qty,
        Debit (AccountID (if OrderType order = ''SELL'' then matchingOrder else order)) quote
          (Mul (Price matchingOrder) qty),
        Credit (AccountID (if OrderType order = ''SELL'' then order else matchingOrder)) quote
          (Mul (Price matchingOrder) qty)]"
  by (simp add: settle_def assms at_index_def Let_def and_then_def split: prod.splits option.splits)

lemma settle_no_second_piece:
  assumes "Split (InstrumentPair order) (CHR ''_'') = [piece]"
  shows "settle e tx order matchingOrder qty = (Some PanicIndexOutOfRange, tx)"
  by (simp add: settle_def assms at_index_def)

text \<open>Legs after a failed leg are not performed, whatever they are.\<close>

lemma perform_legs_append:
  "perform_legs ledger tx (done @ rest) =
     (case perform_legs ledger tx done of
        (Some err, tx') \<Rightarrow> (Some err, tx')
      | (None, tx') \<Rightarrow> perform_legs ledger tx' rest)"
proof (induction "done" arbitrary: tx)
  case Nil
  show ?case by simp
next
  case (Cons l ls)
  obtain err tx' where "perform_leg ledger tx l = (err, tx')"
    by (cases "perform_leg ledger tx l")
  with Cons show ?case
    by (cases err) simp_all
qed

lemma perform_legs_failed_leg:
  assumes "perform_legs ledger tx done = (None, tx')" "perform_leg ledger tx' l = (Some err, tx'')"
  shows "perform_legs ledger tx (done @ l # rest) = (Some err, tx'')"
  using assms by (simp add: perform_legs_append)

lemma main_executor_repos:
  "walletRepo main_executor = NewWalletRepository"
  "orderRepo main_executor = NewOrderRepository"
  "tradeRepo main_executor = NewTradeRepository"
  by (simp_all add: main_executor_def NewTradeExecutor_def)

lemma main_orderRepository: "orderRepository main_orderUseCase = NewOrderRepository"
  by (simp add: main_orderUseCase_def NewOrderUseCase_def)


lemma updateBalance_error:
  "fst (walletRepository_updateBalance tx a s amt isAdd) \<noteq> Some PanicIndexOutOfRange"
  by (simp add: walletRepository_updateBalance_def Let_def split: option.splits)









section \<open>Order status after a trade\<close>

lemma new_status_rule:
  assumes "0 < dval original"
  shows "status_after_trade (dval remaining) (dval original)
     (if IsZero remaining then ''FILLED''
      else if Equal remaining original then ''OPEN'' else ''PARTIALLY_FILLED'')"
  using assms by (auto simp add: status_after_trade_def IsZero_dval Equal_dval)

lemma updateOrderStatus_result:
  assumes "updateOrderStatus e tx ord = (None, tx', ord')"
  shows "ord' = ord\<lparr>Status := (if IsZero (RemainingQuantity ord) then ''FILLED''
      else if Equal (RemainingQuantity ord) (Quantity ord) then ''OPEN'' else ''PARTIALLY_FILLED'')\<rparr>"
  using assms
  by (auto simp add: updateOrderStatus_def Let_def split: prod.splits option.splits)

lemma Execute_orders:
  assumes "Execute e tx order matchingOrder qty = (None, tx', order', matchingOrder')"
  shows "order' = order\<lparr>RemainingQuantity := Sub (RemainingQuantity order) qty,
            Status := (if IsZero (Sub (RemainingQuantity order) qty) then ''FILLED''
              else if Equal (Sub (RemainingQuantity order) qty) (Quantity order) then ''OPEN''
              else ''PARTIALLY_FILLED'')\<rparr>"
    and "matchingOrder' = matchingOrder\<lparr>RemainingQuantity := Sub (RemainingQuantity matchingOrder) qty,
            Status := (if IsZero (Sub (RemainingQuantity matchingOrder) qty) then ''FILLED''
              else if Equal (Sub (RemainingQuantity matchingOrder) qty) (Quantity matchingOrder) then ''OPEN''
              else ''PARTIALLY_FILLED'')\<rparr>"
proof -
  define o1 where "o1 = order\<lparr>RemainingQuantity := Sub (RemainingQuantity order) qty\<rparr>"
  define m1 where "m1 = matchingOrder\<lparr>RemainingQuantity := Sub (RemainingQuantity matchingOrder) qty\<rparr>"
  from assms obtain tx1 tx2 tx3 o2 m2 where
    u1: "updateOrderStatus e tx1 o1 = (None, tx2, o2)" and
    u2: "updateOrderStatus e tx2 m1 = (None, tx3, m2)" and
    r: "order' = o2" "matchingOrder' = m2"
    unfolding Execute_def Let_def o1_def [symmetric] m1_def [symmetric]
    by (auto split: prod.splits option.splits)
  from updateOrderStatus_result [OF u1] r(1)
  show "order' = order\<lparr>RemainingQuantity := Sub (RemainingQuantity order) qty,
            Status := (if IsZero (Sub (RemainingQuantity order) qty) then ''FILLED''
              else if Equal (Sub (RemainingQuantity order) qty) (Quantity order) then ''OPEN''
              else ''PARTIALLY_FILLED'')\<rparr>"
    by (simp add: o1_def)
  from updateOrderStatus_result [OF u2] r(2)
  show "matchingOrder' = matchingOrder\<lparr>RemainingQuantity := Sub (RemainingQuantity matchingOrder) qty,
            Status := (if IsZero (Sub (RemainingQuantity matchingOrder) qty) then ''FILLED''
              else if Equal (Sub (RemainingQuantity matchingOrder) qty) (Quantity matchingOrder) then ''OPEN''
              else ''PARTIALLY_FILLED'')\<rparr>"
    by (simp add: m1_def)
qed

text \<open>
  Claim C5. When a trade execution succeeds, the taker and the maker are each left with
  their remaining quantity less the traded quantity, and with the status that goes with
  it: FILLED when nothing remains, OPEN when the original quantity remains,
  PARTIALLY_FILLED when the remainder lies strictly between. Orders have a positive
  original quantity.
\<close>

theorem status_after_execution:
  assumes "0 < dval (Quantity taker)" "0 < dval (Quantity maker)"
    and "Execute e tx taker maker qty = (None, tx', taker', maker')"
  shows "dval (RemainingQuantity taker') = dval (RemainingQuantity taker) - dval qty
     \<and> status_after_trade (dval (RemainingQuantity taker')) (dval (Quantity taker)) (Status taker')
     \<and> dval (RemainingQuantity maker') = dval (RemainingQuantity maker) - dval qty
     \<and> status_after_trade (dval (RemainingQuantity maker')) (dval (Quantity maker)) (Status maker')"
proof -
  note r = Execute_orders [OF assms(3)]
  have t: "status_after_trade (dval (Sub (RemainingQuantity taker) qty)) (dval (Quantity taker))
     (if IsZero (Sub (RemainingQuantity taker) qty) then ''FILLED''
      else if Equal (Sub (RemainingQuantity taker) qty) (Quantity taker) then ''OPEN''
      else ''PARTIALLY_FILLED'')"
    using assms(1) by (rule new_status_rule)
  have m: "status_after_trade (dval (Sub (RemainingQuantity maker) qty)) (dval (Quantity maker))
     (if IsZero (Sub (RemainingQuantity maker) qty) then ''FILLED''
      else if Equal (Sub (RemainingQuantity maker) qty) (Quantity maker) then ''OPEN''
      else ''PARTIALLY_FILLED'')"
    using assms(2) by (rule new_status_rule)
  have "dval (RemainingQuantity taker') = dval (RemainingQuantity taker) - dval qty"
    by (simp add: r(1) dval_Sub)
  moreover have "status_after_trade (dval (RemainingQuantity taker')) (dval (Quantity taker)) (Status taker')"
    using t by (simp add: r(1))
  moreover have "dval (RemainingQuantity maker') = dval (RemainingQuantity maker) - dval qty"
    by (simp add: r(2) dval_Sub)
  moreover have "status_after_trade (dval (RemainingQuantity maker')) (dval (Quantity maker)) (Status maker')"
    using m by (simp add: r(2))
  ultimately show ?thesis
    by blast
qed

lemma sample_execution:
  "\<exists>tx'. Execute main_executor sample_db sample_buy sample_sell (Decimal_of 5 (- 1)) =
     (None, tx',
      sample_buy\<lparr>RemainingQuantity := Decimal_of 0 (- 1), Status := ''FILLED''\<rparr>,
      sample_sell\<lparr>RemainingQuantity := Decimal_of 5 (- 1), Status := ''PARTIALLY_FILLED''\<rparr>)"
  by (simp add: Execute_def updateOrderStatus_def settle_def main_executor_repos
      NewTradeRepository_def NewOrderRepository_def NewWalletRepository_def
      tradeRepository_Create_def orderRepository_UpdateRemainingAndStatus_def
      walletRepository_SubtractFromBalance_def walletRepository_AddToBalance_def
      walletRepository_updateBalance_def and_then_def at_index_def
      sample_db_def sample_buy_def sample_sell_def sample_wallets_def
      Sub_def Add_def Mul_def RescalePair_def rescale_def Decimal_of_def IsZero_def Equal_def Cmp_def
      int_Cmp_def Let_def)

theorem status_after_execution_witness:
  "\<exists>tx' taker' maker'.
     Execute main_executor sample_db sample_buy sample_sell (Decimal_of 5 (- 1)) = (None, tx', taker', maker')
     \<and> dval (RemainingQuantity taker') = 0 \<and> Status taker' = ''FILLED''
     \<and> status_after_trade 0 (1 / 2) (Status taker')
     \<and> dval (RemainingQuantity maker') = 1 / 2 \<and> Status maker' = ''PARTIALLY_FILLED''
     \<and> status_after_trade (1 / 2) 1 (Status maker')"
proof -
  obtain tx' where ex: "Execute main_executor sample_db sample_buy sample_sell (Decimal_of 5 (- 1)) =
     (None, tx',
      sample_buy\<lparr>RemainingQuantity := Decimal_of 0 (- 1), Status := ''FILLED''\<rparr>,
      sample_sell\<lparr>RemainingQuantity := Decimal_of 5 (- 1), Status := ''PARTIALLY_FILLED''\<rparr>)"
    using sample_execution by blast
  have q: "0 < dval (Quantity sample_buy)" "0 < dval (Quantity sample_sell)"
    by (simp_all add: sample_buy_def sample_sell_def dval_Decimal_of)
  from status_after_execution [OF q ex] have
    "status_after_trade 0 (1 / 2) ''FILLED'' \<and> status_after_trade (1 / 2) 1 ''PARTIALLY_FILLED''"
    by (simp add: sample_buy_def sample_sell_def dval_Decimal_of)
  with ex show ?thesis
    by (simp add: dval_Decimal_of)
qed

section \<open>The matching loop\<close>

lemma Execute_taker_remaining:
  assumes "Execute e tx order matchingOrder qty = (None, tx', order', matchingOrder')"
  shows "RemainingQuantity order' = Sub (RemainingQuantity order) qty"
  by (simp add: Execute_orders(1) [OF assms])

lemma executor_NewOrderUseCase:
  "executor (NewOrderUseCase orr wr tr) = Execute (NewTradeExecutor orr wr tr)"
  "orderRepository (NewOrderUseCase orr wr tr) = orr"
  by (simp_all add: NewOrderUseCase_def)

lemma matchOrder_loop_settle_fills:
  "matchOrder_loop (NewOrderUseCase orr wr tr) tx taker makers =
   settle_fills (Execute (NewTradeExecutor orr wr tr)) tx taker
     (fills (RemainingQuantity taker) makers)"
proof (induction makers arbitrary: tx taker)
  case Nil
  show ?case by simp
next
  case (Cons maker makers)
  define qty where "qty = Min2 (RemainingQuantity taker) (RemainingQuantity maker)"
  obtain err tx' taker' maker' where
    ex: "Execute (NewTradeExecutor orr wr tr) tx taker maker qty = (err, tx', taker', maker')"
    by (rule prod_cases4)
  show ?case
  proof (cases err)
    case (Some problem)
    with ex show ?thesis
      by (simp add: executor_NewOrderUseCase Let_def qty_def [symmetric])
  next
    case None
    with ex have left: "RemainingQuantity taker' = Sub (RemainingQuantity taker) qty"
      by (simp add: Execute_taker_remaining)
    show ?thesis
    proof (cases "IsZero (RemainingQuantity taker')")
      case True
      with ex None left show ?thesis
        by (simp add: executor_NewOrderUseCase Let_def qty_def [symmetric])
    next
      case False
      with ex None left Cons.IH [of tx' taker'] show ?thesis
        by (simp add: executor_NewOrderUseCase Let_def qty_def [symmetric])
    qed
  qed
qed

text \<open>
  Claim C4. The matching loop is the specification's walk over the makers: in the order
  given, each with the smaller of the taker's and the maker's remaining quantity, no
  maker after the one that leaves the taker nothing, and ending with the error of the
  first execution that fails. When the query returns no maker, \<open>matchOrder\<close> returns
  without an error and leaves the transaction and the taker as they were; when it
  returns makers, \<open>matchOrder\<close> is the loop over them.
\<close>

theorem matchOrder_walks_makers:
  "matchOrder_loop (NewOrderUseCase orr wr tr) tx taker makers =
     settle_fills (Execute (NewTradeExecutor orr wr tr)) tx taker
       (fills (RemainingQuantity taker) makers)
   \<and> dval (Min2 (RemainingQuantity taker) (RemainingQuantity maker)) =
       min (dval (RemainingQuantity taker)) (dval (RemainingQuantity maker))
   \<and> (GetMatchingOrders orr tx (AccountID taker) (InstrumentPair taker)
         (if OrderType taker = ''SELL'' then ''BUY'' else ''SELL'') (Price taker)
         (OrderType taker = ''BUY'') = (makers, None) \<longrightarrow>
       matchOrder (NewOrderUseCase orr wr tr) tx taker =
         (if makers = [] then (None, tx, taker)
          else settle_fills (Execute (NewTradeExecutor orr wr tr)) tx taker
                 (fills (RemainingQuantity taker) makers)))"
proof -
  have "GetMatchingOrders orr tx (AccountID taker) (InstrumentPair taker)
         (if OrderType taker = ''SELL'' then ''BUY'' else ''SELL'') (Price taker)
         (OrderType taker = ''BUY'') = (makers, None) \<longrightarrow>
       matchOrder (NewOrderUseCase orr wr tr) tx taker =
         (if makers = [] then (None, tx, taker)
          else matchOrder_loop (NewOrderUseCase orr wr tr) tx taker makers)"
    by (simp add: matchOrder_def executor_NewOrderUseCase(2))
  then show ?thesis
    by (simp only: matchOrder_loop_settle_fills dval_Min2)
qed

lemma sample_query_empty:
  "GetMatchingOrders NewOrderRepository (sample_db\<lparr>order_table := []\<rparr>) (AccountID sample_buy)
     (InstrumentPair sample_buy) (if OrderType sample_buy = ''SELL'' then ''BUY'' else ''SELL'')
     (Price sample_buy) (OrderType sample_buy = ''BUY'') = ([], None)"
  by (simp add: NewOrderRepository_def orderRepository_GetMatchingOrders_def sample_db_def
      sample_buy_def)

theorem matchOrder_walks_makers_witness:
  "matchOrder main_orderUseCase (sample_db\<lparr>order_table := []\<rparr>) sample_buy =
     (None, sample_db\<lparr>order_table := []\<rparr>, sample_buy)
   \<and> matchOrder_loop main_orderUseCase sample_db sample_buy [sample_sell] =
       settle_fills (Execute main_executor) sample_db sample_buy [(sample_sell, Decimal_of 5 (- 1))]"
proof -
  have f: "fills (RemainingQuantity sample_buy) [sample_sell] = [(sample_sell, Decimal_of 5 (- 1))]"
    by (simp add: sample_buy_def sample_sell_def Min2_def Cmp_def RescalePair_def rescale_def
        Decimal_of_def int_Cmp_def Sub_def IsZero_def)
  from matchOrder_walks_makers [where orr = NewOrderRepository and wr = NewWalletRepository
      and tr = NewTradeRepository and tx = "sample_db\<lparr>order_table := []\<rparr>" and taker = sample_buy
      and makers = "[]" and maker = sample_sell]
    sample_query_empty
  have a: "matchOrder main_orderUseCase (sample_db\<lparr>order_table := []\<rparr>) sample_buy =
     (None, sample_db\<lparr>order_table := []\<rparr>, sample_buy)"
    by (simp add: main_orderUseCase_def)
  from matchOrder_walks_makers [where orr = NewOrderRepository and wr = NewWalletRepository
      and tr = NewTradeRepository and tx = sample_db and taker = sample_buy
      and makers = "[sample_sell]" and maker = sample_sell]
  have b: "matchOrder_loop main_orderUseCase sample_db sample_buy [sample_sell] =
       settle_fills (Execute main_executor) sample_db sample_buy [(sample_sell, Decimal_of 5 (- 1))]"
    by (simp only: f main_orderUseCase_def main_executor_def)
  from a b show ?thesis
    by (rule conjI)
qed

section \<open>Indexing the pieces of a pair\<close>

lemma perform_leg_main_error:
  "fst (perform_leg NewWalletRepository tx l) \<noteq> Some PanicIndexOutOfRange"
  by (cases l) (simp_all add: NewWalletRepository_def walletRepository_SubtractFromBalance_def
      walletRepository_AddToBalance_def updateBalance_error)

lemma perform_legs_main_error:
  "fst (perform_legs NewWalletRepository tx ls) \<noteq> Some PanicIndexOutOfRange"
proof (induction ls arbitrary: tx)
  case Nil
  show ?case by simp
next
  case (Cons l ls)
  obtain err tx' where r: "perform_leg NewWalletRepository tx l = (err, tx')"
    by (cases "perform_leg NewWalletRepository tx l")
  have "err \<noteq> Some PanicIndexOutOfRange"
    using perform_leg_main_error [of tx l] r by simp
  then show ?case
    using Cons.IH [of tx'] r by (cases err) simp_all
qed

text \<open>
  Claim C10. For an order whose pair passes the pair-format validation, the required
  coverage and the settlement index the first two pieces of the pair within bounds:
  neither ends in the panic of an index out of range (with the repositories of the
  program, which never return that panic themselves). The pair BTCBRL has no separator,
  and on it both panic: the coverage of a BUY order and every settlement.
\<close>

theorem pair_indexing_in_bounds:
  "(IsValidInstrumentPair (InstrumentPair ord) \<longrightarrow>
      GetRequiredAssetAndAmount ord \<noteq> Inl PanicIndexOutOfRange
      \<and> fst (settle main_executor tx ord maker qty) \<noteq> Some PanicIndexOutOfRange)
   \<and> CHR ''_'' \<notin> set ''BTCBRL''
   \<and> GetRequiredAssetAndAmount (ord\<lparr>InstrumentPair := ''BTCBRL'', OrderType := ''BUY''\<rparr>)
       = Inl PanicIndexOutOfRange
   \<and> settle e tx' (ord\<lparr>InstrumentPair := ''BTCBRL''\<rparr>) maker qty = (Some PanicIndexOutOfRange, tx')"
proof -
  have valid: "IsValidInstrumentPair (InstrumentPair ord) \<longrightarrow>
      GetRequiredAssetAndAmount ord \<noteq> Inl PanicIndexOutOfRange
      \<and> fst (settle main_executor tx ord maker qty) \<noteq> Some PanicIndexOutOfRange"
  proof
    assume "IsValidInstrumentPair (InstrumentPair ord)"
    then obtain base quote where s: "Split (InstrumentPair ord) (CHR ''_'') = base # quote # []"
      by (auto simp: IsValidInstrumentPair_def Let_def length_Suc_conv numeral_2_eq_2)
    have "GetRequiredAssetAndAmount ord \<noteq> Inl PanicIndexOutOfRange"
      by (simp add: GetRequiredAssetAndAmount_def s at_index_def Let_def)
    moreover have "fst (settle main_executor tx ord maker qty) \<noteq> Some PanicIndexOutOfRange"
      by (simp only: settle_on_pair [OF s] main_executor_repos perform_legs_main_error
          not_False_eq_True)
    ultimately show "GetRequiredAssetAndAmount ord \<noteq> Inl PanicIndexOutOfRange
      \<and> fst (settle main_executor tx ord maker qty) \<noteq> Some PanicIndexOutOfRange"
      by (rule conjI)
  qed
  have nosep: "CHR ''_'' \<notin> set ''BTCBRL''"
    by simp
  have cover: "GetRequiredAssetAndAmount (ord\<lparr>InstrumentPair := ''BTCBRL'', OrderType := ''BUY''\<rparr>)
       = Inl PanicIndexOutOfRange"
    by (simp add: GetRequiredAssetAndAmount_def at_index_def)
  have "Split (InstrumentPair (ord\<lparr>InstrumentPair := ''BTCBRL''\<rparr>)) (CHR ''_'') = [''BTCBRL'']"
    by simp
  then have "settle e tx' (ord\<lparr>InstrumentPair := ''BTCBRL''\<rparr>) maker qty = (Some PanicIndexOutOfRange, tx')"
    by (rule settle_no_second_piece)
  with valid nosep cover show ?thesis
    by blast
qed

theorem pair_indexing_in_bounds_witness:
  "IsValidInstrumentPair (InstrumentPair sample_buy)
   \<and> GetRequiredAssetAndAmount sample_buy \<noteq> Inl PanicIndexOutOfRange
   \<and> fst (settle main_executor sample_db sample_buy sample_sell (Decimal_of 5 (- 1)))
       \<noteq> Some PanicIndexOutOfRange
   \<and> GetRequiredAssetAndAmount (sample_buy\<lparr>InstrumentPair := ''BTCBRL''\<rparr>) = Inl PanicIndexOutOfRange
   \<and> settle main_executor sample_db (sample_buy\<lparr>InstrumentPair := ''BTCBRL''\<rparr>) sample_sell
       (Decimal_of 5 (- 1)) = (Some PanicIndexOutOfRange, sample_db)"
proof -
  have v: "IsValidInstrumentPair (InstrumentPair sample_buy)"
    by (simp add: IsValidInstrumentPair_def sample_buy_def)
  have b: "sample_buy\<lparr>InstrumentPair := ''BTCBRL'', OrderType := ''BUY''\<rparr>
      = sample_buy\<lparr>InstrumentPair := ''BTCBRL''\<rparr>"
    by (simp add: sample_buy_def)
  from pair_indexing_in_bounds [where ord = sample_buy and tx = sample_db and maker = sample_sell
      and qty = "Decimal_of 5 (- 1)" and e = main_executor and tx' = sample_db] v b
  show ?thesis
    by simp
qed

section \<open>The ledger's debit\<close>

text \<open>
  What the debit does: without a fault of the database, it fails exactly when the
  account has no live wallet of the asset, and otherwise takes the amount off the
  balance of that wallet, whatever the balance is.
\<close>

lemma debit_behaviour:
  assumes "db_fault tx = None"
  shows "walletRepository_SubtractFromBalance tx account asset amount =
     (if \<exists>w \<in> set (wallet_table tx). WalletAccountID w = account \<and> AssetSymbol w = asset
            \<and> WalletDeletedAt w = None
      then (None, tx\<lparr>wallet_table := map (\<lambda>w. if WalletAccountID w = account \<and> AssetSymbol w = asset
                \<and> WalletDeletedAt w = None then w\<lparr>Balance := Sub (Balance w) amount\<rparr> else w)
              (wallet_table tx)\<rparr>)
      else (Some (ErrNew ''insufficient balance or wallet not found''), tx))"
proof -
  define hit :: "Wallet \<Rightarrow> bool" where "hit = (\<lambda>w. WalletAccountID w = account \<and> AssetSymbol w = asset
      \<and> WalletDeletedAt w = None)"
  have len: "(length (filter hit (wallet_table tx)) = 0) = (\<not> (\<exists>w \<in> set (wallet_table tx). hit w))"
    by (simp add: filter_empty_conv)
  have code: "walletRepository_SubtractFromBalance tx account asset amount =
      (if length (filter hit (wallet_table tx)) = 0
       then (Some (ErrNew ''insufficient balance or wallet not found''),
             tx\<lparr>wallet_table := map (\<lambda>w. if hit w then w\<lparr>Balance := Sub (Balance w) amount\<rparr> else w)
                (wallet_table tx)\<rparr>)
       else (None, tx\<lparr>wallet_table := map (\<lambda>w. if hit w then w\<lparr>Balance := Sub (Balance w) amount\<rparr> else w)
                (wallet_table tx)\<rparr>))"
    using assms
    by (simp add: walletRepository_SubtractFromBalance_def walletRepository_updateBalance_def
        Let_def hit_def)
  show ?thesis
  proof (cases "\<exists>w \<in> set (wallet_table tx). hit w")
    case True
    with len have "length (filter hit (wallet_table tx)) \<noteq> 0"
      by simp
    with True show ?thesis
      unfolding code by (simp add: hit_def)
  next
    case False
    then have "map (\<lambda>w. if hit w then w\<lparr>Balance := Sub (Balance w) amount\<rparr> else w) (wallet_table tx)
        = wallet_table tx"
      by (simp add: map_idI)
    with False len show ?thesis
      unfolding code by (simp add: hit_def)
  qed
qed

text \<open>
  Claim C3, at an input where the code departs from it. Account 20 holds 1 BTC; a debit
  of 2 BTC returns no error and leaves the balance at -1.
\<close>

theorem debit_beyond_balance:
  "walletRepository_SubtractFromBalance sample_db 20 ''BTC'' (Decimal_of 2 0) =
     (None, sample_db\<lparr>wallet_table :=
        [\<lparr>WalletID = 1, WalletAccountID = 10, AssetSymbol = ''BTC'', Balance = Decimal_of 0 0,
          WalletDeletedAt = None\<rparr>,
         \<lparr>WalletID = 2, WalletAccountID = 10, AssetSymbol = ''BRL'', Balance = Decimal_of 200000 0,
          WalletDeletedAt = None\<rparr>,
         \<lparr>WalletID = 3, WalletAccountID = 20, AssetSymbol = ''BTC'', Balance = Decimal_of (- 1) 0,
          WalletDeletedAt = None\<rparr>,
         \<lparr>WalletID = 4, WalletAccountID = 20, AssetSymbol = ''BRL'', Balance = Decimal_of 0 0,
          WalletDeletedAt = None\<rparr>]\<rparr>)
   \<and> dval (Decimal_of 1 0) - dval (Decimal_of 2 0) < 0
   \<and> dval (Decimal_of (- 1) 0) = - 1"
  by (simp add: walletRepository_SubtractFromBalance_def walletRepository_updateBalance_def
      sample_db_def sample_wallets_def Sub_def RescalePair_def Decimal_of_def dval_def)

section \<open>The orders the book is built from\<close>

text \<open>
  Claim C6, at an input where the code departs from it. The only order on BTC_BRL is a
  partially filled buy order with 0.4 remaining. The query of the book asks for the
  status OPEN alone, finds nothing and \<open>GetOrderBook\<close> returns no book, while the
  matching query on the same table returns the order to a seller.
\<close>

theorem book_misses_partially_filled:
  "GetOrderBook (\<lambda>ks. ks) main_orderUseCase
     \<lparr>wallet_table = [],
      order_table = [sample_buy\<lparr>RemainingQuantity := Decimal_of 4 (- 1), Status := ''PARTIALLY_FILLED''\<rparr>],
      trade_table = [], db_fault = None\<rparr> ''BTC_BRL'' = Inr None
   \<and> orderRepository_GetMatchingOrders
     \<lparr>wallet_table = [],
      order_table = [sample_buy\<lparr>RemainingQuantity := Decimal_of 4 (- 1), Status := ''PARTIALLY_FILLED''\<rparr>],
      trade_table = [], db_fault = None\<rparr> 20 ''BTC_BRL'' ''BUY'' (Decimal_of 190000 0) False
     = ([sample_buy\<lparr>RemainingQuantity := Decimal_of 4 (- 1), Status := ''PARTIALLY_FILLED''\<rparr>], None)"
  by (simp add: GetOrderBook_def IsValidInstrumentPair_def main_orderUseCase_def NewOrderUseCase_def
      NewOrderRepository_def orderRepository_GetOpenOrdersByInstrumentPair_def
      orderRepository_GetMatchingOrders_def sample_buy_def GreaterThanOrEqual_def Cmp_def
      int_Cmp_def Decimal_of_def)

text \<open>The parts of the claim the code does keep.\<close>

lemma GetOrderBook_invalid_pair:
  "\<not> IsValidInstrumentPair pair \<Longrightarrow> GetOrderBook range_keys u tx pair = Inl ErrInvalidPairFormat"
  by (simp add: GetOrderBook_def)

lemma GetOrderBook_no_orders:
  "IsValidInstrumentPair pair \<Longrightarrow>
   GetOpenOrdersByInstrumentPair (orderRepository u) tx pair = ([], None) \<Longrightarrow>
   GetOrderBook range_keys u tx pair = Inr None"
  by (simp add: GetOrderBook_def)

lemma GetOpenOrders_rows:
  "db_fault tx = None \<Longrightarrow>
   orderRepository_GetOpenOrdersByInstrumentPair tx pair =
     (filter (\<lambda>row. InstrumentPair row = pair \<and> Status row = ''OPEN'') (order_table tx), None)"
  by (simp add: orderRepository_GetOpenOrdersByInstrumentPair_def)

section \<open>Sorting\<close>

lemma mset_insert_by: "mset (insert_by precedes x ys) = add_mset x (mset ys)"
  by (induction ys) simp_all

lemma mset_sort_by: "mset (sort_by precedes xs) = mset xs"
  by (induction xs) (simp_all add: mset_insert_by)

lemma set_insert_by: "set (insert_by precedes x ys) = insert x (set ys)"
  using mset_insert_by [of precedes x ys, THEN arg_cong, of set_mset] by simp

lemma set_sort_by: "set (sort_by precedes xs) = set xs"
  using mset_sort_by [of precedes xs, THEN arg_cong, of set_mset] by simp

lemma sorted_insert_by:
  assumes trans: "\<And>a b c. \<not> precedes b a \<Longrightarrow> \<not> precedes c b \<Longrightarrow> \<not> precedes c a"
    and asym: "\<And>a b. precedes a b \<Longrightarrow> \<not> precedes b a"
    and sorted: "sorted_wrt (\<lambda>a b. \<not> precedes b a) ys"
  shows "sorted_wrt (\<lambda>a b. \<not> precedes b a) (insert_by precedes x ys)"
  using sorted
proof (induction ys)
  case Nil
  show ?case by simp
next
  case (Cons y ys)
  show ?case
  proof (cases "precedes y x")
    case True
    have "\<forall>z \<in> set (insert_by precedes x ys). \<not> precedes z y"
      using Cons.prems asym [OF True] by (auto simp: set_insert_by)
    moreover have "sorted_wrt (\<lambda>a b. \<not> precedes b a) (insert_by precedes x ys)"
      using Cons by simp
    ultimately show ?thesis
      using True by simp
  next
    case False
    have "\<forall>z \<in> set ys. \<not> precedes z x"
      using Cons.prems False trans by auto
    with False Cons.prems show ?thesis
      by simp
  qed
qed

lemma sorted_sort_by:
  assumes trans: "\<And>a b c. \<not> precedes b a \<Longrightarrow> \<not> precedes c b \<Longrightarrow> \<not> precedes c a"
    and asym: "\<And>a b. precedes a b \<Longrightarrow> \<not> precedes b a"
  shows "sorted_wrt (\<lambda>a b. \<not> precedes b a) (sort_by precedes xs)"
proof (induction xs)
  case Nil
  show ?case by simp
next
  case (Cons x xs)
  from sorted_insert_by [of precedes, OF trans asym Cons.IH]
  show ?case by simp
qed

section \<open>The matching query\<close>

lemma asc_not_precedes:
  "(\<not> price_asc_created_asc b a) =
   (dval (Price a) < dval (Price b) \<or> dval (Price a) = dval (Price b) \<and> CreatedAt a \<le> CreatedAt b)"
  by (auto simp add: price_asc_created_asc_def LessThan_dval Equal_dval)

lemma desc_not_precedes:
  "(\<not> price_desc_created_asc b a) =
   (dval (Price b) < dval (Price a) \<or> dval (Price a) = dval (Price b) \<and> CreatedAt a \<le> CreatedAt b)"
  by (auto simp add: price_desc_created_asc_def GreaterThan_dval Equal_dval)

lemma sorted_asc:
  "sorted_wrt (\<lambda>a b. dval (Price a) < dval (Price b)
       \<or> dval (Price a) = dval (Price b) \<and> CreatedAt a \<le> CreatedAt b)
     (sort_by price_asc_created_asc rows)"
proof -
  have "sorted_wrt (\<lambda>a b. \<not> price_asc_created_asc b a) (sort_by price_asc_created_asc rows)"
  proof (rule sorted_sort_by)
    fix a b c
    assume "\<not> price_asc_created_asc b a" "\<not> price_asc_created_asc c b"
    then show "\<not> price_asc_created_asc c a"
      unfolding asc_not_precedes by auto
  next
    fix a b
    assume "price_asc_created_asc a b"
    then show "\<not> price_asc_created_asc b a"
      unfolding asc_not_precedes
      by (auto simp add: price_asc_created_asc_def LessThan_dval Equal_dval)
  qed
  then show ?thesis
    by (simp only: asc_not_precedes)
qed

lemma sorted_desc:
  "sorted_wrt (\<lambda>a b. dval (Price b) < dval (Price a)
       \<or> dval (Price a) = dval (Price b) \<and> CreatedAt a \<le> CreatedAt b)
     (sort_by price_desc_created_asc rows)"
proof -
  have "sorted_wrt (\<lambda>a b. \<not> price_desc_created_asc b a) (sort_by price_desc_created_asc rows)"
  proof (rule sorted_sort_by)
    fix a b c
    assume "\<not> price_desc_created_asc b a" "\<not> price_desc_created_asc c b"
    then show "\<not> price_desc_created_asc c a"
      unfolding desc_not_precedes by auto
  next
    fix a b
    assume "price_desc_created_asc a b"
    then show "\<not> price_desc_created_asc b a"
      unfolding desc_not_precedes
      by (auto simp add: price_desc_created_asc_def GreaterThan_dval Equal_dval)
  qed
  then show ?thesis
    by (simp only: desc_not_precedes)
qed

text \<open>
  Claim C1. For a taker on the BUY or the SELL side, the matching query as
  \<open>matchOrder\<close> calls it returns exactly the eligible makers (each row of the table as
  often as it is there), in price-time priority: by price ascending for a buyer and
  descending for a seller, and at equal prices the earlier order first.
\<close>

theorem matching_query_price_time_priority:
  assumes side: "OrderType taker = ''BUY'' \<or> OrderType taker = ''SELL''"
    and ok: "db_fault tx = None"
  shows "(\<exists>makers.
       orderRepository_GetMatchingOrders tx (AccountID taker) (InstrumentPair taker)
         (if OrderType taker = ''SELL'' then ''BUY'' else ''SELL'') (Price taker)
         (OrderType taker = ''BUY'') = (makers, None)
       \<and> mset makers = mset (filter (eligible_maker taker) (order_table tx))
       \<and> sorted_wrt (price_time_priority taker) makers)
     \<and> GetMatchingOrders (orderRepository main_orderUseCase) = orderRepository_GetMatchingOrders"
proof -
  have wired: "GetMatchingOrders (orderRepository main_orderUseCase) = orderRepository_GetMatchingOrders"
    by (simp add: main_orderRepository NewOrderRepository_def)
  have rows: "\<exists>makers.
       orderRepository_GetMatchingOrders tx (AccountID taker) (InstrumentPair taker)
         (if OrderType taker = ''SELL'' then ''BUY'' else ''SELL'') (Price taker)
         (OrderType taker = ''BUY'') = (makers, None)
       \<and> mset makers = mset (filter (eligible_maker taker) (order_table tx))
       \<and> sorted_wrt (price_time_priority taker) makers"
  proof (cases "OrderType taker = ''BUY''")
    case True
    define makers where "makers = sort_by price_asc_created_asc
       (filter (eligible_maker taker) (order_table tx))"
    have same: "filter (\<lambda>row. LessThanOrEqual (Price row) (Price taker))
         (filter (\<lambda>row. InstrumentPair row = InstrumentPair taker \<and> OrderType row = ''SELL''
            \<and> Status row \<in> set [''OPEN'', ''PARTIALLY_FILLED'']
            \<and> AccountID row \<noteq> AccountID taker) (order_table tx))
       = filter (eligible_maker taker) (order_table tx)"
      using True by (auto simp add: eligible_maker_def LessThanOrEqual_dval intro: filter_cong)
    have "orderRepository_GetMatchingOrders tx (AccountID taker) (InstrumentPair taker)
         (if OrderType taker = ''SELL'' then ''BUY'' else ''SELL'') (Price taker)
         (OrderType taker = ''BUY'') = (makers, None)"
      using True ok unfolding orderRepository_GetMatchingOrders_def Let_def makers_def same [symmetric]
      by simp
    moreover have "mset makers = mset (filter (eligible_maker taker) (order_table tx))"
      by (simp add: makers_def mset_sort_by)
    moreover have "price_time_priority taker =
        (\<lambda>a b. dval (Price a) < dval (Price b)
           \<or> dval (Price a) = dval (Price b) \<and> CreatedAt a \<le> CreatedAt b)"
      using True by (intro ext) (simp add: price_time_priority_def)
    then have "sorted_wrt (price_time_priority taker) makers"
      using sorted_asc [of "filter (eligible_maker taker) (order_table tx)"]
      by (simp only: makers_def)
    ultimately show ?thesis
      by blast
  next
    case False
    with side have sell: "OrderType taker = ''SELL''"
      by simp
    define makers where "makers = sort_by price_desc_created_asc
       (filter (eligible_maker taker) (order_table tx))"
    have same: "filter (\<lambda>row. GreaterThanOrEqual (Price row) (Price taker))
         (filter (\<lambda>row. InstrumentPair row = InstrumentPair taker \<and> OrderType row = ''BUY''
            \<and> Status row \<in> set [''OPEN'', ''PARTIALLY_FILLED'']
            \<and> AccountID row \<noteq> AccountID taker) (order_table tx))
       = filter (eligible_maker taker) (order_table tx)"
      using sell by (auto simp add: eligible_maker_def GreaterThanOrEqual_dval intro: filter_cong)
    have "orderRepository_GetMatchingOrders tx (AccountID taker) (InstrumentPair taker)
         (if OrderType taker = ''SELL'' then ''BUY'' else ''SELL'') (Price taker)
         (OrderType taker = ''BUY'') = (makers, None)"
      using sell ok unfolding orderRepository_GetMatchingOrders_def Let_def makers_def same [symmetric]
      by simp
    moreover have "mset makers = mset (filter (eligible_maker taker) (order_table tx))"
      by (simp add: makers_def mset_sort_by)
    moreover have "price_time_priority taker =
        (\<lambda>a b. dval (Price b) < dval (Price a)
           \<or> dval (Price a) = dval (Price b) \<and> CreatedAt a \<le> CreatedAt b)"
      using sell by (intro ext) (simp add: price_time_priority_def)
    then have "sorted_wrt (price_time_priority taker) makers"
      using sorted_desc [of "filter (eligible_maker taker) (order_table tx)"]
      by (simp only: makers_def)
    ultimately show ?thesis
      by blast
  qed
  from rows wired show ?thesis
    by (rule conjI)
qed

lemma sample_asks_query:
  "orderRepository_GetMatchingOrders sample_asks (AccountID sample_bid) (InstrumentPair sample_bid)
     (if OrderType sample_bid = ''SELL'' then ''BUY'' else ''SELL'') (Price sample_bid)
     (OrderType sample_bid = ''BUY'') =
   ([sample_ask 12 7 20 99 ''PARTIALLY_FILLED'', sample_ask 14 1 30 100 ''OPEN'',
     sample_ask 11 2 20 100 ''OPEN''], None)"
  by (simp add: orderRepository_GetMatchingOrders_def sample_asks_def sample_bid_def sample_ask_def
      price_asc_created_asc_def LessThanOrEqual_def LessThan_def Equal_def Cmp_def int_Cmp_def
      Decimal_of_def)

theorem matching_query_price_time_priority_witness:
  "orderRepository_GetMatchingOrders sample_asks 10 ''BTC_BRL'' ''SELL'' (Decimal_of 100 0) True =
     ([sample_ask 12 7 20 99 ''PARTIALLY_FILLED'', sample_ask 14 1 30 100 ''OPEN'',
       sample_ask 11 2 20 100 ''OPEN''], None)
   \<and> mset [sample_ask 12 7 20 99 ''PARTIALLY_FILLED'', sample_ask 14 1 30 100 ''OPEN'',
       sample_ask 11 2 20 100 ''OPEN'']
       = mset (filter (eligible_maker sample_bid) (order_table sample_asks))
   \<and> sorted_wrt (price_time_priority sample_bid)
       [sample_ask 12 7 20 99 ''PARTIALLY_FILLED'', sample_ask 14 1 30 100 ''OPEN'',
        sample_ask 11 2 20 100 ''OPEN'']"
proof -
  have side: "OrderType sample_bid = ''BUY'' \<or> OrderType sample_bid = ''SELL''"
    by (simp add: sample_bid_def)
  have ok: "db_fault sample_asks = None"
    by (simp add: sample_asks_def)
  from matching_query_price_time_priority [OF side ok] sample_asks_query
  have "mset [sample_ask 12 7 20 99 ''PARTIALLY_FILLED'', sample_ask 14 1 30 100 ''OPEN'',
       sample_ask 11 2 20 100 ''OPEN'']
       = mset (filter (eligible_maker sample_bid) (order_table sample_asks))
   \<and> sorted_wrt (price_time_priority sample_bid)
       [sample_ask 12 7 20 99 ''PARTIALLY_FILLED'', sample_ask 14 1 30 100 ''OPEN'',
        sample_ask 11 2 20 100 ''OPEN'']"
    by auto
  moreover have "orderRepository_GetMatchingOrders sample_asks 10 ''BTC_BRL'' ''SELL'' (Decimal_of 100 0) True =
     ([sample_ask 12 7 20 99 ''PARTIALLY_FILLED'', sample_ask 14 1 30 100 ''OPEN'',
       sample_ask 11 2 20 100 ''OPEN''], None)"
    using sample_asks_query by (simp add: sample_bid_def)
  ultimately show ?thesis
    by simp
qed

section \<open>Decimals as strings: printing and reading agree\<close>

lemma below_ten: "(n::nat) < 10 \<Longrightarrow> n \<in> {0, 1, 2, 3, 4, 5, 6, 7, 8, 9}"
  by auto

lemma digit_of_digit_char:
  assumes "n < 10" shows "digit_of_char (digit_char n) = Some n"
  using below_ten [OF assms]
  by (auto simp add: digit_of_char_def digit_char_def digit_chars_def)

lemma digit_char_not_mark:
  assumes "n < 10"
  shows "digit_char n \<noteq> CHR ''.'' \<and> digit_char n \<noteq> CHR ''-'' \<and> digit_char n \<noteq> CHR ''+''"
  using below_ten [OF assms]
  by (auto simp add: digit_char_def digit_chars_def)

lemma digit_char_zero: "digit_char 0 = CHR ''0''"
  by (simp add: digit_char_def digit_chars_def)

lemma all_digits_simps:
  "all_digits []"
  "all_digits (c # cs) = ((\<exists>v < 10. c = digit_char v) \<and> all_digits cs)"
  "all_digits (xs @ ys) = (all_digits xs \<and> all_digits ys)"
  by (auto simp add: all_digits_def)

lemma all_digits_replicate: "all_digits (replicate j (CHR ''0''))"
  using digit_char_zero by (auto simp add: all_digits_def intro!: exI [of _ 0])

lemma all_digits_subset: "all_digits ys \<Longrightarrow> set xs \<subseteq> set ys \<Longrightarrow> all_digits xs"
  by (auto simp add: all_digits_def)

lemma all_digits_no_mark:
  "all_digits ds \<Longrightarrow> CHR ''.'' \<notin> set ds \<and> CHR ''-'' \<notin> set ds \<and> CHR ''+'' \<notin> set ds"
  using digit_char_not_mark by (fastforce simp add: all_digits_def)

lemma all_digits_digits_of: "all_digits (digits_of n)"
proof (induction n rule: digits_of.induct)
  case (1 n)
  show ?case
  proof (cases "n < 10")
    case True
    then show ?thesis
      by (subst digits_of.simps) (auto simp add: all_digits_simps)
  next
    case False
    have "\<exists>v < 10. digit_char (n mod 10) = digit_char v"
      by (rule exI [of _ "n mod 10"]) simp
    with False 1 show ?thesis
      by (subst digits_of.simps) (simp add: all_digits_simps)
  qed
qed

lemma digits_of_nonempty: "digits_of n \<noteq> []"
  by (subst digits_of.simps) simp

lemma parse_nat_digits: "all_digits ds \<Longrightarrow> parse_nat ds acc = Some (nat_of_digits acc ds)"
proof (induction ds arbitrary: acc)
  case Nil
  show ?case by simp
next
  case (Cons c cs)
  then obtain v where "v < 10" "c = digit_char v" "all_digits cs"
    by (auto simp add: all_digits_simps)
  with Cons.IH show ?case
    by (simp add: digit_of_digit_char)
qed

lemma nat_of_digits_append:
  "nat_of_digits acc (xs @ ys) = nat_of_digits (nat_of_digits acc xs) ys"
  by (induction xs arbitrary: acc) simp_all

lemma nat_of_digits_zeros: "nat_of_digits acc (replicate j (CHR ''0'')) = acc * 10 ^ j"
proof (induction j arbitrary: acc)
  case 0
  show ?case by simp
next
  case (Suc j)
  have "digit_of_char (CHR ''0'') = Some 0"
    using digit_of_digit_char [of 0] by (simp add: digit_char_zero)
  with Suc show ?case
    by simp
qed

lemma nat_of_digits_digits_of:
  "nat_of_digits acc (digits_of n) = acc * 10 ^ length (digits_of n) + n"
proof (induction n arbitrary: acc rule: digits_of.induct)
  case (1 n)
  show ?case
  proof (cases "n < 10")
    case True
    then show ?thesis
      by (subst (1 2) digits_of.simps) (simp add: digit_of_digit_char)
  next
    case False
    have m: "n mod 10 < 10" by simp
    have "nat_of_digits acc (digits_of n) =
        nat_of_digits acc (digits_of (n div 10) @ [digit_char (n mod 10)])"
      using False by (subst digits_of.simps) simp
    also have "\<dots> = (acc * 10 ^ length (digits_of (n div 10)) + n div 10) * 10 + n mod 10"
      using 1 [OF False] m by (simp add: nat_of_digits_append digit_of_digit_char)
    also have "\<dots> = acc * 10 ^ (length (digits_of (n div 10)) + 1) + n"
      by (simp add: algebra_simps)
    also have "length (digits_of (n div 10)) + 1 = length (digits_of n)"
      using False by (subst (2) digits_of.simps) simp
    finally show ?thesis .
  qed
qed

lemma nat_of_digits_of: "nat_of_digits 0 (digits_of n) = n"
  by (simp add: nat_of_digits_digits_of)

lemma digits_of_times_ten: "0 < n \<Longrightarrow> digits_of (10 * n) = digits_of n @ [CHR ''0'']"
  by (subst digits_of.simps) (simp add: digit_char_zero)

lemma digits_of_zero: "digits_of 0 = [CHR ''0'']"
  by (subst digits_of.simps) (simp add: digit_char_zero)

lemma trim_zeros_snoc: "trim_zeros (xs @ [CHR ''0'']) = trim_zeros xs"
  by (simp add: trim_zeros_def)

lemma trim_zeros_replicate: "trim_zeros (replicate m (CHR ''0'')) = []"
  by (simp add: trim_zeros_def)

lemma trim_zeros_zeros_snoc: "trim_zeros (replicate m (CHR ''0'') @ [CHR ''0'']) = []"
  using trim_zeros_replicate [of "Suc m"] by (simp add: replicate_append_same)

lemma trim_zeros_split: "\<exists>j. xs = trim_zeros xs @ replicate j (CHR ''0'')"
proof -
  define zs where "zs = takeWhile (\<lambda>c. c = CHR ''0'') (rev xs)"
  have "\<forall>c \<in> set zs. c = CHR ''0''"
    by (auto simp add: zs_def dest: set_takeWhileD)
  then have z: "zs = replicate (length zs) (CHR ''0'')"
    by (simp add: replicate_length_same)
  have "rev xs = zs @ dropWhile (\<lambda>c. c = CHR ''0'') (rev xs)"
    by (simp add: zs_def)
  then have "rev (rev xs) = rev (zs @ dropWhile (\<lambda>c. c = CHR ''0'') (rev xs))"
    by (rule arg_cong)
  then have "xs = trim_zeros xs @ rev zs"
    by (simp add: trim_zeros_def)
  also have "rev zs = replicate (length zs) (CHR ''0'')"
    by (subst z) simp
  finally show ?thesis
    by blast
qed

lemma set_trim_zeros: "set (trim_zeros xs) \<subseteq> set xs"
  by (auto simp add: trim_zeros_def dest: set_dropWhileD)

lemma String_nonneg_exp: "0 \<le> d_exp d \<Longrightarrow> String d = int_String (d_value d * 10 ^ nat (d_exp d))"
  by (simp add: String_def rescale_def d_value_Decimal_of)

lemma number_string_no_places: "str \<noteq> [] \<Longrightarrow> number_string str 0 = str"
  by (simp add: number_string_def trim_zeros_def)

lemma String_nonpos_exp:
  assumes "d_exp d \<le> 0"
  shows "String d = (if d_value d < 0 then ''-'' else []) @
     number_string (digits_of (nat \<bar>d_value d\<bar>)) (nat (- d_exp d))"
proof (cases "d_exp d = 0")
  case True
  then have "String d = int_String (d_value d)"
    by (simp add: String_nonneg_exp)
  also have "\<dots> = (if d_value d < 0 then ''-'' else []) @ digits_of (nat \<bar>d_value d\<bar>)"
    by (simp add: int_String_def)
  finally show ?thesis
    using True by (simp add: number_string_no_places digits_of_nonempty)
next
  case False
  with assms have "\<not> 0 \<le> d_exp d"
    by simp
  then show ?thesis
    by (simp add: String_def number_string_def Let_def)
qed

lemma number_string_zero: "number_string [CHR ''0''] k = [CHR ''0'']"
proof (cases k)
  case 0
  then show ?thesis by (simp add: number_string_no_places)
next
  case (Suc m)
  then show ?thesis
    by (simp add: number_string_def trim_zeros_zeros_snoc)
qed

lemma number_string_times_ten:
  assumes "str \<noteq> []"
  shows "number_string (str @ [CHR ''0'']) (Suc k) = number_string str k"
proof (cases "length str > k")
  case True
  then have t: "take (length str - k) (str @ [CHR ''0'']) = take (length str - k) str"
    and d: "drop (length str - k) (str @ [CHR ''0'']) = drop (length str - k) str @ [CHR ''0'']"
    by simp_all
  from True show ?thesis
    by (simp add: number_string_def t d trim_zeros_snoc)
next
  case False
  have "trim_zeros (replicate (k - length str) (CHR ''0'') @ str @ [CHR ''0''])
      = trim_zeros (replicate (k - length str) (CHR ''0'') @ str)"
    using trim_zeros_snoc [of "replicate (k - length str) (CHR ''0'') @ str"] by simp
  with False show ?thesis
    by (simp add: number_string_def Let_def)
qed

lemma String_times_ten: "String (Decimal_of (v * 10) (e - 1)) = String (Decimal_of v e)"
proof (cases "1 \<le> e")
  case True
  then have "nat e = Suc (nat (e - 1))"
    by simp
  with True show ?thesis
    by (simp add: String_nonneg_exp d_exp_Decimal_of d_value_Decimal_of mult.assoc)
next
  case False
  then have e: "e \<le> 0" "e - 1 \<le> 0" "nat (- (e - 1)) = Suc (nat (- e))"
    by simp_all
  show ?thesis
  proof (cases "v = 0")
    case True
    with e show ?thesis
      by (simp add: String_nonpos_exp d_exp_Decimal_of d_value_Decimal_of digits_of_zero
          number_string_zero)
  next
    case False
    then have pos: "0 < nat \<bar>v\<bar>"
      by simp
    have "nat \<bar>v * 10\<bar> = 10 * nat \<bar>v\<bar>"
      by (simp add: abs_mult nat_mult_distrib)
    then have "digits_of (nat \<bar>v * 10\<bar>) = digits_of (nat \<bar>v\<bar>) @ [CHR ''0'']"
      using digits_of_times_ten [OF pos] by simp
    then have "number_string (digits_of (nat \<bar>v * 10\<bar>)) (Suc (nat (- e)))
        = number_string (digits_of (nat \<bar>v\<bar>)) (nat (- e))"
      by (simp add: number_string_times_ten digits_of_nonempty)
    moreover have "(v * 10 < 0) = (v < 0)"
      by (simp add: mult_less_0_iff)
    ultimately show ?thesis
      using e by (simp add: String_nonpos_exp d_exp_Decimal_of d_value_Decimal_of)
  qed
qed

lemma String_scaled: "String (Decimal_of (v * 10 ^ m) (e - int m)) = String (Decimal_of v e)"
proof (induction m)
  case 0
  show ?case by simp
next
  case (Suc m)
  have "String (Decimal_of (v * 10 ^ Suc m) (e - int (Suc m)))
      = String (Decimal_of ((v * 10 ^ m) * 10) ((e - int m) - 1))"
    by (simp add: algebra_simps)
  also have "\<dots> = String (Decimal_of (v * 10 ^ m) (e - int m))"
    by (rule String_times_ten)
  finally show ?case
    using Suc by simp
qed

lemma Decimal_of_fields: "Decimal_of (d_value d) (d_exp d) = d"
  by (simp add: Decimal_of_def)

lemma String_rescale_down:
  assumes "e \<le> d_exp d"
  shows "String (rescale d e) = String d"
proof (cases "d_exp d = e")
  case True
  then show ?thesis by (simp add: rescale_def)
next
  case False
  with assms have "rescale d e = Decimal_of (d_value d * 10 ^ nat (d_exp d - e)) (d_exp d - int (nat (d_exp d - e)))"
    by (simp add: rescale_def)
  then show ?thesis
    by (simp only: String_scaled Decimal_of_fields)
qed

lemma same_number_same_String:
  assumes "dval a = dval b"
  shows "String a = String b"
proof -
  define e where "e = min (d_exp a) (d_exp b)"
  have le: "e \<le> d_exp a" "e \<le> d_exp b"
    by (simp_all add: e_def)
  have "dval (rescale a e) = dval (rescale b e)"
    using assms le by (simp add: dval_rescale_down)
  moreover have "d_exp (rescale a e) = d_exp (rescale b e)"
    by (simp add: d_exp_rescale)
  ultimately have "d_value (rescale a e) = d_value (rescale b e)"
    by (simp add: same_exp_eq)
  with \<open>d_exp (rescale a e) = d_exp (rescale b e)\<close> have "rescale a e = rescale b e"
    by (auto intro: Decimal.equality)
  then have "String (rescale a e) = String (rescale b e)"
    by simp
  with le show ?thesis
    by (simp add: String_rescale_down)
qed

lemma number_string_shape:
  "\<exists>ip fp j. number_string (digits_of a) k = (if fp = [] then ip else ip @ CHR ''.'' # fp)
     \<and> ip \<noteq> [] \<and> all_digits ip \<and> all_digits fp
     \<and> nat_of_digits 0 (ip @ fp) * 10 ^ j = a \<and> length fp + j = k"
proof -
  define str where "str = digits_of a"
  define ip where "ip = (if length str > k then take (length str - k) str else ''0'')"
  define fp0 where "fp0 = (if length str > k then drop (length str - k) str
      else replicate (k - length str) (CHR ''0'') @ str)"
  have str: "all_digits str" "str \<noteq> []" "nat_of_digits 0 str = a"
    by (simp_all add: str_def all_digits_digits_of digits_of_nonempty nat_of_digits_of)
  have zero: "all_digits ''0''"
    using all_digits_replicate [of 1] by simp
  have taken: "all_digits (take (length str - k) str)"
    using str(1) by (rule all_digits_subset) (rule set_take_subset)
  have dropped: "all_digits (drop (length str - k) str)"
    using str(1) by (rule all_digits_subset) (rule set_drop_subset)
  have ip: "ip \<noteq> []" "all_digits ip"
    using str zero taken by (auto simp add: ip_def)
  have fp0: "all_digits fp0"
    using str dropped by (simp add: fp0_def all_digits_simps all_digits_replicate)
  have len: "length fp0 = k"
    by (simp add: fp0_def)
  have val: "nat_of_digits 0 (ip @ fp0) = a"
  proof (cases "length str > k")
    case True
    then have "ip @ fp0 = str"
      by (simp add: ip_def fp0_def)
    with str show ?thesis by simp
  next
    case False
    then have "ip @ fp0 = replicate (Suc (k - length str)) (CHR ''0'') @ str"
      by (simp add: ip_def fp0_def)
    then show ?thesis
      using str by (simp only: nat_of_digits_append nat_of_digits_zeros) simp
  qed
  obtain j where j: "fp0 = trim_zeros fp0 @ replicate j (CHR ''0'')"
    using trim_zeros_split [of fp0] by blast
  define fp where "fp = trim_zeros fp0"
  have fp: "all_digits fp"
    using fp0 set_trim_zeros [of fp0] by (simp add: fp_def all_digits_subset)
  have "ip @ fp0 = (ip @ fp) @ replicate j (CHR ''0'')"
    using j by (simp add: fp_def)
  then have "nat_of_digits 0 (ip @ fp0) = nat_of_digits 0 (ip @ fp) * 10 ^ j"
    by (simp only: nat_of_digits_append [of 0 "ip @ fp"] nat_of_digits_zeros)
  with val have v: "nat_of_digits 0 (ip @ fp) * 10 ^ j = a"
    by simp
  from j have "length fp0 = length (trim_zeros fp0 @ replicate j (CHR ''0''))"
    by (rule arg_cong)
  then have "length fp0 = length fp + j"
    by (simp add: fp_def)
  with len have l: "length fp + j = k"
    by simp
  have "number_string (digits_of a) k = (if fp = [] then ip else ip @ CHR ''.'' # fp)"
    by (simp add: number_string_def Let_def str_def [symmetric] ip_def [symmetric]
        fp0_def [symmetric] fp_def [symmetric])
  with ip fp v l show ?thesis
    by blast
qed

lemma ParseInt_signed_digits:
  assumes "all_digits X" "X \<noteq> []"
  shows "ParseInt ((if neg then ''-'' else []) @ X) =
     Some ((if neg then - 1 else 1) * int (nat_of_digits 0 X))"
proof (cases neg)
  case True
  with assms show ?thesis
    by (simp add: ParseInt_def parse_nat_digits)
next
  case False
  from assms obtain c cs where X: "X = c # cs"
    by (cases X) auto
  with assms(1) have "c \<noteq> CHR ''-''" "c \<noteq> CHR ''+''"
    using all_digits_no_mark [of X] by auto
  with False X show ?thesis
    using parse_nat_digits [OF assms(1), of 0] by (simp add: ParseInt_def)
qed

lemma NewFromString_String_nonpos:
  assumes "d_exp d \<le> 0"
  shows "\<exists>d'. NewFromString (String d) = Some d' \<and> dval d' = dval d"
proof -
  define a where "a = nat \<bar>d_value d\<bar>"
  define k where "k = nat (- d_exp d)"
  define neg where "neg = (d_value d < 0)"
  define sign where "sign = (if neg then ''-'' else [])"
  obtain ip fp j where
    shape: "number_string (digits_of a) k = (if fp = [] then ip else ip @ CHR ''.'' # fp)" and
    ip: "ip \<noteq> []" "all_digits ip" and fp: "all_digits fp" and
    val: "nat_of_digits 0 (ip @ fp) * 10 ^ j = a" and len: "length fp + j = k"
    using number_string_shape [of a k] by blast
  have s: "String d = sign @ (if fp = [] then ip else ip @ CHR ''.'' # fp)"
    using String_nonpos_exp [OF assms] shape by (simp add: a_def k_def sign_def neg_def)
  have nodot: "CHR ''.'' \<notin> set (sign @ ip)" "CHR ''.'' \<notin> set fp"
    using all_digits_no_mark [OF ip(2)] all_digits_no_mark [OF fp] by (auto simp add: sign_def)
  have X: "all_digits (ip @ fp)" "ip @ fp \<noteq> []"
    using ip fp by (simp_all add: all_digits_simps)
  define N where "N = (if neg then - 1 else 1) * int (nat_of_digits 0 (ip @ fp))"
  have parsed: "ParseInt (sign @ ip @ fp) = Some N"
    using ParseInt_signed_digits [OF X, of neg] by (simp add: sign_def N_def)
  have new: "NewFromString (String d) = Some (Decimal_of N (- int (length fp)))"
  proof (cases "fp = []")
    case True
    then have "Split (String d) (CHR ''.'') = [sign @ ip]"
      using nodot s by (simp add: Split_no_sep)
    with True parsed show ?thesis
      by (simp add: NewFromString_def)
  next
    case False
    then have "String d = (sign @ ip) @ CHR ''.'' # fp"
      using s by simp
    moreover have "Split ((sign @ ip) @ CHR ''.'' # fp) (CHR ''.'') = (sign @ ip) # Split fp (CHR ''.'')"
      using nodot(1) by (rule Split_append_sep)
    moreover have "Split fp (CHR ''.'') = [fp]"
      using nodot(2) by (rule Split_no_sep)
    ultimately have "Split (String d) (CHR ''.'') = [sign @ ip, fp]"
      by simp
    with parsed show ?thesis
      by (simp add: NewFromString_def)
  qed
  have v: "d_value d = N * 10 ^ j"
  proof -
    have "d_value d = (if neg then - 1 else 1) * int a"
      by (simp add: a_def neg_def)
    also have "int a = int (nat_of_digits 0 (ip @ fp)) * 10 ^ j"
      by (subst val [symmetric]) simp
    finally show ?thesis
      by (simp add: N_def)
  qed
  have e: "d_exp d = - int (length fp) - int j"
    using assms len by (simp add: k_def)
  have "(10::rat) powi (- int (length fp)) = 10 ^ nat (- int (length fp) - d_exp d) * 10 powi d_exp d"
    by (rule powi_split) (simp add: e)
  also have "nat (- int (length fp) - d_exp d) = j"
    by (simp add: e)
  finally have p: "(10::rat) powi (- int (length fp)) = 10 ^ j * 10 powi d_exp d" .
  have "dval (Decimal_of N (- int (length fp))) = dval d"
    by (simp add: dval_Decimal_of p) (simp add: dval_def v)
  with new show ?thesis
    by blast
qed

lemma NewFromString_String: "\<exists>d'. NewFromString (String d) = Some d' \<and> dval d' = dval d"
proof (cases "d_exp d \<le> 0")
  case True
  then show ?thesis by (rule NewFromString_String_nonpos)
next
  case False
  then have le: "0 \<le> d_exp d"
    by simp
  have "d_exp (rescale d 0) \<le> 0"
    by (simp add: d_exp_rescale)
  then obtain d' where "NewFromString (String (rescale d 0)) = Some d'" "dval d' = dval (rescale d 0)"
    using NewFromString_String_nonpos by blast
  with le show ?thesis
    by (simp add: String_rescale_down dval_rescale_down)
qed

text \<open>
  \<open>String\<close> is a canonical representation: two decimals print the same string exactly
  when they stand for the same number.
\<close>

lemma String_canonical: "(String a = String b) = (dval a = dval b)"
proof
  assume eq: "String a = String b"
  obtain a' where a: "NewFromString (String a) = Some a'" "dval a' = dval a"
    using NewFromString_String by blast
  obtain b' where b: "NewFromString (String b) = Some b'" "dval b' = dval b"
    using NewFromString_String by blast
  from eq a b show "dval a = dval b"
    by simp
next
  assume "dval a = dval b"
  then show "String a = String b"
    by (rule same_number_same_String)
qed

lemma RequireFromString_String:
  "\<exists>d'. RequireFromString (String d) = Inr d' \<and> dval d' = dval d \<and> String d' = String d"
proof -
  obtain d' where "NewFromString (String d) = Some d'" "dval d' = dval d"
    using NewFromString_String by blast
  then show ?thesis
    by (simp add: RequireFromString_def String_canonical)
qed

section \<open>The aggregated order book\<close>

lemma map_of_map_set: "map_of (map_set m k v) = (map_of m)(k \<mapsto> v)"
  by (induction m) (auto simp add: fun_eq_iff)

lemma map_get_map_set: "map_get (map_set m k v) k' = (if k' = k then v else map_get m k')"
  by (simp add: map_get_def map_of_map_set)

lemma key_list_map_set:
  "map fst (map_set m k v) = (if k \<in> fst ` set m then map fst m else map fst m @ [k])"
  by (induction m) force+

lemma keys_map_set: "fst ` set (map_set m k v) = insert k (fst ` set m)"
  using key_list_map_set [of m k v, THEN arg_cong, of set] by (auto split: if_splits)

lemma distinct_map_set: "distinct (map fst m) \<Longrightarrow> distinct (map fst (map_set m k v))"
proof (induction m)
  case Nil
  show ?case by simp
next
  case (Cons kv m)
  obtain k' v' where kv: "kv = (k', v')"
    by (cases kv)
  from Cons kv show ?case
    using keys_map_set [of m k v] by (auto simp add: image_iff)
qed

lemma aggregate_sides:
  "aggregate orders bidsMap asksMap =
     (foldl add_to_level bidsMap (filter (\<lambda>ord. OrderType ord = ''BUY'') orders),
      foldl add_to_level asksMap (filter (\<lambda>ord. OrderType ord \<noteq> ''BUY'') orders))"
  by (induction orders arbitrary: bidsMap asksMap) simp_all

lemma keys_foldl_add:
  "fst ` set (foldl add_to_level m side) = fst ` set m \<union> (\<lambda>ord. String (Price ord)) ` set side"
proof (induction side arbitrary: m)
  case Nil
  show ?case by simp
next
  case (Cons ord side)
  have "fst ` set (add_to_level m ord) = insert (String (Price ord)) (fst ` set m)"
    by (simp add: add_to_level_def keys_map_set)
  then show ?case
    by (simp add: Cons.IH)
qed

lemma distinct_foldl_add:
  "distinct (map fst m) \<Longrightarrow> distinct (map fst (foldl add_to_level m side))"
  by (induction side arbitrary: m) (simp_all add: add_to_level_def distinct_map_set)

lemma value_foldl_add:
  "dval (map_get (foldl add_to_level m side) k) =
     dval (map_get m k) +
     sum_list (map (\<lambda>ord. dval (RemainingQuantity ord)) (filter (\<lambda>ord. String (Price ord) = k) side))"
proof (induction side arbitrary: m)
  case Nil
  show ?case by simp
next
  case (Cons ord side)
  show ?case
    by (simp add: Cons.IH) (simp add: add_to_level_def map_get_map_set dval_Add)
qed

lemma map_get_empty: "dval (map_get [] k) = 0"
  by (simp add: map_get_def dval_Decimal_of)

lemma level_total:
  "dval (map_get (foldl add_to_level [] side) (String p)) = total_remaining side (dval p)"
  by (simp add: value_foldl_add map_get_empty total_remaining_def String_canonical)

lemma parse_keys_printed:
  assumes "\<forall>k \<in> set ks. \<exists>d. k = String d"
  shows "\<exists>ps. parse_keys ks = Inr ps \<and> map String ps = ks"
  using assms
proof (induction ks)
  case Nil
  show ?case by simp
next
  case (Cons k ks)
  then obtain d where "k = String d"
    by auto
  then obtain d' where d': "RequireFromString k = Inr d'" "String d' = k"
    using RequireFromString_String [of d] by auto
  from Cons obtain ps where "parse_keys ks = Inr ps" "map String ps = ks"
    by auto
  with d' show ?case
    by simp
qed

lemma distinct_numbers:
  assumes "distinct (map String ps)"
  shows "distinct (map dval ps)"
proof -
  from assms have d: "distinct ps" and i: "inj_on String (set ps)"
    by (simp_all add: distinct_map)
  have "inj_on dval (set ps)"
  proof (rule inj_onI)
    fix x y
    assume "x \<in> set ps" "y \<in> set ps" "dval x = dval y"
    then have "String x = String y"
      by (simp add: String_canonical)
    with i \<open>x \<in> set ps\<close> \<open>y \<in> set ps\<close> show "x = y"
      by (simp add: inj_on_def)
  qed
  with d show ?thesis
    by (simp add: distinct_map)
qed

lemma strictly_sorted:
  fixes f :: "'a \<Rightarrow> rat"
  assumes "sorted_wrt (\<lambda>a b. f a \<le> f b) xs" "distinct (map f xs)"
  shows "sorted_wrt (\<lambda>a b. f a < f b) xs"
  using assms by (induction xs) (auto simp add: less_le)

lemma sorted_desc_prices:
  "sorted_wrt (\<lambda>a b. dval b \<le> dval a) (sort_by GreaterThan ps)"
proof -
  have "sorted_wrt (\<lambda>a b. \<not> GreaterThan b a) (sort_by GreaterThan ps)"
    by (rule sorted_sort_by) (auto simp add: GreaterThan_dval)
  then show ?thesis
    by (simp add: GreaterThan_dval not_less)
qed

lemma sorted_asc_prices:
  "sorted_wrt (\<lambda>a b. dval a \<le> dval b) (sort_by LessThan ps)"
proof -
  have "sorted_wrt (\<lambda>a b. \<not> LessThan b a) (sort_by LessThan ps)"
    by (rule sorted_sort_by) (auto simp add: LessThan_dval)
  then show ?thesis
    by (simp add: LessThan_dval not_less)
qed

lemma level_entries:
  "level ` set (entries m qs) = (\<lambda>p. (dval p, dval (map_get m (String p)))) ` set qs"
  by (auto simp add: entries_def level_def image_iff)

lemma side_levels:
  assumes perm: "mset ks = mset (map fst (foldl add_to_level [] side))"
    and parsed: "map String ps = ks"
    and sorted: "mset qs = mset ps"
  shows "level ` set (entries (foldl add_to_level [] side) qs) = levels_of side"
    and "distinct (map dval qs)"
proof -
  define m where "m = foldl add_to_level [] side"
  have "distinct (map fst m)"
    unfolding m_def by (rule distinct_foldl_add) simp
  then have "distinct ks"
    using mset_eq_imp_distinct_iff [OF perm] by (simp add: m_def)
  with parsed have "distinct (map dval ps)"
    by (simp add: distinct_numbers)
  moreover have "mset (map dval qs) = mset (map dval ps)"
    using sorted by simp
  ultimately show "distinct (map dval qs)"
    using mset_eq_imp_distinct_iff [of "map dval qs" "map dval ps"] by blast
  have qs: "set qs = set ps"
    using sorted by (rule mset_eq_setD)
  have "set ks = set (map fst m)"
    using perm unfolding m_def by (rule mset_eq_setD)
  then have "set ks = (\<lambda>ord. String (Price ord)) ` set side"
    using keys_foldl_add [of "[]" side] by (simp add: m_def)
  with parsed have keys: "String ` set ps = (\<lambda>ord. String (Price ord)) ` set side"
    by auto
  have "level ` set (entries m qs) = (\<lambda>p. (dval p, total_remaining side (dval p))) ` set ps"
    by (simp add: level_entries qs m_def level_total)
  also have "\<dots> = levels_of side"
  proof (rule set_eqI, rule iffI)
    fix x
    assume "x \<in> (\<lambda>p. (dval p, total_remaining side (dval p))) ` set ps"
    then obtain p where p: "p \<in> set ps" "x = (dval p, total_remaining side (dval p))"
      by auto
    then have "String p \<in> (\<lambda>ord. String (Price ord)) ` set side"
      using keys by auto
    then obtain ord where "ord \<in> set side" "String p = String (Price ord)"
      by auto
    then have "ord \<in> set side" "dval p = dval (Price ord)"
      by (simp_all add: String_canonical)
    with p show "x \<in> levels_of side"
      by (auto simp add: levels_of_def)
  next
    fix x
    assume "x \<in> levels_of side"
    then obtain ord where o: "ord \<in> set side"
        "x = (dval (Price ord), total_remaining side (dval (Price ord)))"
      by (auto simp add: levels_of_def)
    then have "String (Price ord) \<in> String ` set ps"
      using keys by auto
    then obtain p where "p \<in> set ps" "String (Price ord) = String p"
      by auto
    then have "p \<in> set ps" "dval (Price ord) = dval p"
      by (simp_all add: String_canonical)
    with o show "x \<in> (\<lambda>p. (dval p, total_remaining side (dval p))) ` set ps"
      by auto
  qed
  finally show "level ` set (entries (foldl add_to_level [] side) qs) = levels_of side"
    by (simp add: m_def)
qed

lemma keys_printed:
  assumes "mset ks = mset (map fst (foldl add_to_level [] side))"
  shows "\<forall>k \<in> set ks. \<exists>d. k = String d"
proof -
  have "set ks = set (map fst (foldl add_to_level [] side))"
    using assms by (rule mset_eq_setD)
  then have "set ks = (\<lambda>ord. String (Price ord)) ` set side"
    using keys_foldl_add [of "[]" side] by simp
  then show ?thesis
    by auto
qed

lemma sorted_entries:
  "sorted_wrt (\<lambda>a b. R (EntryPrice a) (EntryPrice b)) (entries m qs) = sorted_wrt R qs"
  by (simp add: entries_def sorted_wrt_map)

lemma book_of_orders:
  assumes perm: "\<And>ks. mset (range_keys ks) = mset ks"
    and valid: "IsValidInstrumentPair pair"
    and fetched: "GetOpenOrdersByInstrumentPair (orderRepository u) tx pair = (orders, None)"
    and some: "orders \<noteq> []"
  shows "\<exists>book. GetOrderBook range_keys u tx pair = Inr (Some book)
     \<and> sorted_wrt (\<lambda>a b. dval (EntryPrice b) < dval (EntryPrice a)) (Bids book)
     \<and> sorted_wrt (\<lambda>a b. dval (EntryPrice a) < dval (EntryPrice b)) (Asks book)
     \<and> level ` set (Bids book) = levels_of (filter (\<lambda>ord. OrderType ord = ''BUY'') orders)
     \<and> level ` set (Asks book) = levels_of (filter (\<lambda>ord. OrderType ord \<noteq> ''BUY'') orders)"
proof -
  define buys where "buys = filter (\<lambda>ord. OrderType ord = ''BUY'') orders"
  define sells where "sells = filter (\<lambda>ord. OrderType ord \<noteq> ''BUY'') orders"
  define bidsMap where "bidsMap = foldl add_to_level [] buys"
  define asksMap where "asksMap = foldl add_to_level [] sells"
  have agg: "aggregate orders [] [] = (bidsMap, asksMap)"
    by (simp add: aggregate_sides bidsMap_def asksMap_def buys_def sells_def)
  have pb: "mset (range_keys (map fst bidsMap)) = mset (map fst (foldl add_to_level [] buys))"
    by (simp add: perm bidsMap_def)
  have pa: "mset (range_keys (map fst asksMap)) = mset (map fst (foldl add_to_level [] sells))"
    by (simp add: perm asksMap_def)
  obtain bidPrices where bp: "parse_keys (range_keys (map fst bidsMap)) = Inr bidPrices"
      "map String bidPrices = range_keys (map fst bidsMap)"
    using parse_keys_printed [OF keys_printed [OF pb]] by blast
  obtain askPrices where ap: "parse_keys (range_keys (map fst asksMap)) = Inr askPrices"
      "map String askPrices = range_keys (map fst asksMap)"
    using parse_keys_printed [OF keys_printed [OF pa]] by blast
  define book where "book = \<lparr>BookInstrumentPair = pair,
      Bids = entries bidsMap (sort_by GreaterThan bidPrices),
      Asks = entries asksMap (sort_by LessThan askPrices)\<rparr>"
  have result: "GetOrderBook range_keys u tx pair = Inr (Some book)"
    using valid fetched some by (simp add: GetOrderBook_def agg bp ap book_def)
  note b = side_levels [OF pb bp(2) mset_sort_by [of GreaterThan bidPrices]]
  note a = side_levels [OF pa ap(2) mset_sort_by [of LessThan askPrices]]
  have "sorted_wrt (\<lambda>a b. dval b < dval a) (sort_by GreaterThan bidPrices)"
  proof -
    have "sorted_wrt (\<lambda>a b. - dval a \<le> - dval b) (sort_by GreaterThan bidPrices)"
      using sorted_desc_prices [of bidPrices] by simp
    moreover have "distinct (map (\<lambda>p. - dval p) (sort_by GreaterThan bidPrices))"
      using b(2) by (simp add: distinct_map inj_on_def)
    ultimately have "sorted_wrt (\<lambda>a b. - dval a < - dval b) (sort_by GreaterThan bidPrices)"
      by (rule strictly_sorted)
    then show ?thesis
      by simp
  qed
  then have bids_sorted: "sorted_wrt (\<lambda>a b. dval (EntryPrice b) < dval (EntryPrice a)) (Bids book)"
    by (simp add: book_def sorted_entries [of "\<lambda>x y. dval y < dval x"])
  have "sorted_wrt (\<lambda>a b. dval a < dval b) (sort_by LessThan askPrices)"
    using sorted_asc_prices [of askPrices] a(2) by (rule strictly_sorted)
  then have asks_sorted: "sorted_wrt (\<lambda>a b. dval (EntryPrice a) < dval (EntryPrice b)) (Asks book)"
    by (simp add: book_def sorted_entries [of "\<lambda>x y. dval x < dval y"])
  have "level ` set (Bids book) = levels_of buys" "level ` set (Asks book) = levels_of sells"
    using b(1) a(1) by (simp_all add: book_def bidsMap_def asksMap_def)
  with result bids_sorted asks_sorted show ?thesis
    unfolding buys_def sells_def by blast
qed

lemma range_keys_one:
  assumes "\<And>ks. mset (range_keys ks) = mset ks"
  shows "range_keys [k] = [k]" "range_keys [] = []"
proof -
  have "mset (range_keys [k]) = {#k#}"
    by (simp add: assms)
  then show "range_keys [k] = [k]"
    by (simp add: mset_single_iff_right)
  have "mset (range_keys []) = {#}"
    by (simp add: assms)
  then show "range_keys [] = []"
    by simp
qed

lemma printed_samples:
  "String (Decimal_of 100 0) = ''100''"
  "String (Decimal_of 10000 (- 2)) = ''100''"
  "String (Decimal_of 14 (- 1)) = ''1.4''"
  by (simp_all add: String_def Decimal_of_def rescale_def int_String_def digits_of.simps
      digit_char_def digit_chars_def trim_zeros_def Let_def)

lemma read_samples:
  "NewFromString ''100'' = Some (Decimal_of 100 0)"
  "NewFromString ''100.00'' = Some (Decimal_of 10000 (- 2))"
  "NewFromString ''1.0'' = Some (Decimal_of 10 (- 1))"
  "NewFromString ''0.4'' = Some (Decimal_of 4 (- 1))"
  by (simp_all add: NewFromString_def ParseInt_def digit_of_char_def digit_chars_def)

lemma book_of_two_bids:
  assumes perm: "\<And>ks. mset (range_keys ks) = mset ks"
    and valid: "IsValidInstrumentPair pair"
    and fetched: "GetOpenOrdersByInstrumentPair (orderRepository u) tx pair = ([first, second], None)"
    and sides: "OrderType first = ''BUY''" "OrderType second = ''BUY''"
    and prices: "NewFromString ''100'' = Some (Price first)" "NewFromString ''100.00'' = Some (Price second)"
    and left: "NewFromString ''1.0'' = Some (RemainingQuantity first)"
      "NewFromString ''0.4'' = Some (RemainingQuantity second)"
  shows "GetOrderBook range_keys u tx pair =
     Inr (Some \<lparr>BookInstrumentPair = pair,
                Bids = [\<lparr>EntryPrice = Decimal_of 100 0, EntryQuantity = Decimal_of 14 (- 1)\<rparr>],
                Asks = []\<rparr>)"
proof -
  have f: "Price first = Decimal_of 100 0" "Price second = Decimal_of 10000 (- 2)"
      "RemainingQuantity first = Decimal_of 10 (- 1)" "RemainingQuantity second = Decimal_of 4 (- 1)"
    using prices left by (simp_all add: read_samples)
  have one: "add_to_level [] first = [(''100'', Decimal_of 10 (- 1))]"
    by (simp add: add_to_level_def f printed_samples map_get_def)
      (simp add: Add_def RescalePair_def rescale_def Decimal_of_def)
  have two: "add_to_level [(''100'', Decimal_of 10 (- 1))] second = [(''100'', Decimal_of 14 (- 1))]"
    by (simp add: add_to_level_def f printed_samples map_get_def)
      (simp add: Add_def RescalePair_def rescale_def Decimal_of_def)
  have agg: "aggregate [first, second] [] [] = ([(''100'', Decimal_of 14 (- 1))], [])"
    by (simp add: sides one two)
  show ?thesis
    using valid fetched
    by (simp add: GetOrderBook_def agg range_keys_one [OF perm] RequireFromString_def
        read_samples entries_def printed_samples map_get_def del: aggregate.simps)
qed

text \<open>
  Claim C9. The order book groups the fetched orders of each side (the bids are the BUY
  orders, the asks the others) by the canonical string of their price, so that prices
  that are the same number make one level; the quantity of a level is the sum of what
  remains of its orders; the bids are sorted by price strictly descending and the asks
  strictly ascending. This holds whatever order the runtime visits the keys of a map in.
  Two open BUY orders at "100" and "100.00" with 1.0 and 0.4 remaining make the single
  bid level (100, 1.4).
\<close>

theorem order_book_levels:
  assumes perm: "\<And>ks. mset (range_keys ks) = mset ks"
    and valid: "IsValidInstrumentPair pair"
  shows "(GetOpenOrdersByInstrumentPair (orderRepository u) tx pair = (orders, None) \<and> orders \<noteq> [] \<longrightarrow>
       (\<exists>book. GetOrderBook range_keys u tx pair = Inr (Some book)
         \<and> sorted_wrt (\<lambda>a b. dval (EntryPrice b) < dval (EntryPrice a)) (Bids book)
         \<and> sorted_wrt (\<lambda>a b. dval (EntryPrice a) < dval (EntryPrice b)) (Asks book)
         \<and> level ` set (Bids book) = levels_of (filter (\<lambda>ord. OrderType ord = ''BUY'') orders)
         \<and> level ` set (Asks book) = levels_of (filter (\<lambda>ord. OrderType ord \<noteq> ''BUY'') orders)))
     \<and> (String a = String b) = (dval a = dval b)
     \<and> (GetOpenOrdersByInstrumentPair (orderRepository u) tx pair = ([first, second], None)
         \<and> OrderType first = ''BUY'' \<and> OrderType second = ''BUY''
         \<and> NewFromString ''100'' = Some (Price first)
         \<and> NewFromString ''100.00'' = Some (Price second)
         \<and> NewFromString ''1.0'' = Some (RemainingQuantity first)
         \<and> NewFromString ''0.4'' = Some (RemainingQuantity second) \<longrightarrow>
       (\<exists>book. GetOrderBook range_keys u tx pair = Inr (Some book)
         \<and> map (\<lambda>entry. (String (EntryPrice entry), String (EntryQuantity entry))) (Bids book)
             = [(''100'', ''1.4'')]
         \<and> Asks book = []))"
proof -
  have general: "GetOpenOrdersByInstrumentPair (orderRepository u) tx pair = (orders, None) \<and> orders \<noteq> [] \<longrightarrow>
       (\<exists>book. GetOrderBook range_keys u tx pair = Inr (Some book)
         \<and> sorted_wrt (\<lambda>a b. dval (EntryPrice b) < dval (EntryPrice a)) (Bids book)
         \<and> sorted_wrt (\<lambda>a b. dval (EntryPrice a) < dval (EntryPrice b)) (Asks book)
         \<and> level ` set (Bids book) = levels_of (filter (\<lambda>ord. OrderType ord = ''BUY'') orders)
         \<and> level ` set (Asks book) = levels_of (filter (\<lambda>ord. OrderType ord \<noteq> ''BUY'') orders))"
    using book_of_orders [of range_keys pair u tx orders, OF perm valid] by blast
  have example: "GetOpenOrdersByInstrumentPair (orderRepository u) tx pair = ([first, second], None)
         \<and> OrderType first = ''BUY'' \<and> OrderType second = ''BUY''
         \<and> NewFromString ''100'' = Some (Price first)
         \<and> NewFromString ''100.00'' = Some (Price second)
         \<and> NewFromString ''1.0'' = Some (RemainingQuantity first)
         \<and> NewFromString ''0.4'' = Some (RemainingQuantity second) \<longrightarrow>
       (\<exists>book. GetOrderBook range_keys u tx pair = Inr (Some book)
         \<and> map (\<lambda>entry. (String (EntryPrice entry), String (EntryQuantity entry))) (Bids book)
             = [(''100'', ''1.4'')]
         \<and> Asks book = [])"
  proof
    assume h: "GetOpenOrdersByInstrumentPair (orderRepository u) tx pair = ([first, second], None)
         \<and> OrderType first = ''BUY'' \<and> OrderType second = ''BUY''
         \<and> NewFromString ''100'' = Some (Price first)
         \<and> NewFromString ''100.00'' = Some (Price second)
         \<and> NewFromString ''1.0'' = Some (RemainingQuantity first)
         \<and> NewFromString ''0.4'' = Some (RemainingQuantity second)"
    have "GetOrderBook range_keys u tx pair =
      Inr (Some \<lparr>BookInstrumentPair = pair,
                Bids = [\<lparr>EntryPrice = Decimal_of 100 0, EntryQuantity = Decimal_of 14 (- 1)\<rparr>],
                Asks = []\<rparr>)"
      using h by (intro book_of_two_bids [OF perm valid]) simp_all
    then show "\<exists>book. GetOrderBook range_keys u tx pair = Inr (Some book)
         \<and> map (\<lambda>entry. (String (EntryPrice entry), String (EntryQuantity entry))) (Bids book)
             = [(''100'', ''1.4'')]
         \<and> Asks book = []"
      by (simp add: printed_samples)
  qed
  from general String_canonical [of a b] example show ?thesis
    by blast
qed

lemma sample_open_orders_fetched:
  "GetOpenOrdersByInstrumentPair (orderRepository main_orderUseCase) sample_open_orders ''BTC_BRL'' =
     (order_table sample_open_orders, None)"
  by (simp add: main_orderRepository NewOrderRepository_def
      orderRepository_GetOpenOrdersByInstrumentPair_def sample_open_orders_def sample_buy_def
      sample_sell_def)

lemma sample_two_bids_fetched:
  "GetOpenOrdersByInstrumentPair (orderRepository main_orderUseCase) sample_two_bids ''BTC_BRL'' =
     (order_table sample_two_bids, None)"
  by (simp add: main_orderRepository NewOrderRepository_def
      orderRepository_GetOpenOrdersByInstrumentPair_def sample_two_bids_def sample_buy_def)

theorem order_book_levels_witness:
  "(\<exists>book. GetOrderBook rev main_orderUseCase sample_open_orders ''BTC_BRL'' = Inr (Some book)
      \<and> sorted_wrt (\<lambda>a b. dval (EntryPrice b) < dval (EntryPrice a)) (Bids book)
      \<and> sorted_wrt (\<lambda>a b. dval (EntryPrice a) < dval (EntryPrice b)) (Asks book)
      \<and> level ` set (Bids book) = {(199000, 1 / 2), (200000, 9 / 10)}
      \<and> level ` set (Asks book) = {(190000, 1)})
   \<and> (\<exists>book. GetOrderBook rev main_orderUseCase sample_two_bids ''BTC_BRL'' = Inr (Some book)
      \<and> map (\<lambda>entry. (String (EntryPrice entry), String (EntryQuantity entry))) (Bids book)
          = [(''100'', ''1.4'')]
      \<and> Asks book = [])"
proof -
  have perm: "\<And>ks::string list. mset (rev ks) = mset ks"
    by simp
  have valid: "IsValidInstrumentPair ''BTC_BRL''"
    by (simp add: IsValidInstrumentPair_def)
  have bids: "levels_of (filter (\<lambda>ord. OrderType ord = ''BUY'') (order_table sample_open_orders))
      = {(199000, 1 / 2), (200000, 9 / 10)}"
    by (simp add: levels_of_def total_remaining_def sample_open_orders_def sample_buy_def
        sample_sell_def dval_Decimal_of)
  have asks: "levels_of (filter (\<lambda>ord. OrderType ord \<noteq> ''BUY'') (order_table sample_open_orders))
      = {(190000, 1)}"
    by (simp add: levels_of_def total_remaining_def sample_open_orders_def sample_buy_def
        sample_sell_def dval_Decimal_of)
  have some: "order_table sample_open_orders \<noteq> []"
    by (simp add: sample_open_orders_def)
  have two: "order_table sample_two_bids =
      [sample_buy\<lparr>ID := 31, Price := Decimal_of 100 0, Quantity := Decimal_of 10 (- 1),
           RemainingQuantity := Decimal_of 10 (- 1)\<rparr>,
       sample_buy\<lparr>ID := 32, Price := Decimal_of 10000 (- 2), Quantity := Decimal_of 4 (- 1),
           RemainingQuantity := Decimal_of 4 (- 1)\<rparr>]"
    by (simp add: sample_two_bids_def)
  from order_book_levels [of rev "''BTC_BRL''" main_orderUseCase sample_open_orders
      "order_table sample_open_orders", OF perm valid] sample_open_orders_fetched some
  have first: "\<exists>book. GetOrderBook rev main_orderUseCase sample_open_orders ''BTC_BRL'' = Inr (Some book)
      \<and> sorted_wrt (\<lambda>a b. dval (EntryPrice b) < dval (EntryPrice a)) (Bids book)
      \<and> sorted_wrt (\<lambda>a b. dval (EntryPrice a) < dval (EntryPrice b)) (Asks book)
      \<and> level ` set (Bids book) = {(199000, 1 / 2), (200000, 9 / 10)}
      \<and> level ` set (Asks book) = {(190000, 1)}"
    by (simp only: bids asks) blast
  from order_book_levels [where range_keys = rev and pair = "''BTC_BRL''" and u = main_orderUseCase
      and tx = sample_two_bids
      and first = "sample_buy\<lparr>ID := 31, Price := Decimal_of 100 0, Quantity := Decimal_of 10 (- 1),
           RemainingQuantity := Decimal_of 10 (- 1)\<rparr>"
      and second = "sample_buy\<lparr>ID := 32, Price := Decimal_of 10000 (- 2), Quantity := Decimal_of 4 (- 1),
           RemainingQuantity := Decimal_of 4 (- 1)\<rparr>", OF perm valid]
    sample_two_bids_fetched
  have second: "\<exists>book. GetOrderBook rev main_orderUseCase sample_two_bids ''BTC_BRL'' = Inr (Some book)
      \<and> map (\<lambda>entry. (String (EntryPrice entry), String (EntryQuantity entry))) (Bids book)
          = [(''100'', ''1.4'')]
      \<and> Asks book = []"
    by (simp add: two read_samples sample_buy_def)
  from first second show ?thesis
    by (rule conjI)
qed

lemma sample_book:
  "GetOrderBook rev main_orderUseCase sample_open_orders ''BTC_BRL'' =
     Inr (Some \<lparr>BookInstrumentPair = ''BTC_BRL'',
       Bids = [\<lparr>EntryPrice = Decimal_of 200000 0, EntryQuantity = Decimal_of 9 (- 1)\<rparr>,
               \<lparr>EntryPrice = Decimal_of 199000 0, EntryQuantity = Decimal_of 5 (- 1)\<rparr>],
       Asks = [\<lparr>EntryPrice = Decimal_of 190000 0, EntryQuantity = Decimal_of 1 0\<rparr>]\<rparr>)"
  by (simp add: GetOrderBook_def IsValidInstrumentPair_def sample_open_orders_fetched)
    (simp add: sample_open_orders_def sample_buy_def sample_sell_def add_to_level_def map_get_def
      String_def rescale_def int_String_def digits_of.simps digit_char_def digit_chars_def
      trim_zeros_def RequireFromString_def NewFromString_def ParseInt_def digit_of_char_def
      entries_def GreaterThan_def LessThan_def Cmp_def int_Cmp_def Add_def RescalePair_def
      Decimal_of_def Let_def)

end
